theory Spec2Isabelle
  imports Complex_Main
begin

section \<open>Numbers of the program\<close>

text \<open>
  The server (\<^verbatim>\<open>src/server.ts\<close>) computes with JavaScript numbers, which are IEEE 754
  doubles, and stores them in SQLite columns of type REAL, which are doubles too. A
  number is a finite value, one of the two infinities, or NaN. A finite value is written
  as the real number it is; the result of every addition, multiplication and division is
  rounded to a double by \<open>fl\<close>. A number in a request stands for the double that
  \<^verbatim>\<open>JSON.parse\<close> made of the literal; the literal \<^verbatim>\<open>1e999\<close> is read as \<^verbatim>\<open>Infinity\<close>.

  The two zeros of the doubles are one value here. The handlers compare zeros with
  \<^verbatim>\<open>===\<close> and the relational operators, which do not tell them apart, and the only
  divisor that can be a computed zero is the sum \<^verbatim>\<open>1 + errorPercent\<close>, which is the
  positive zero when it is zero.
\<close>

datatype number = Num real | PosInf | NegInf | NaN

text \<open>The sign of an infinite result: the infinity itself, or the opposite one.\<close>

definition inf_of_sign :: "bool \<Rightarrow> number" where
  "inf_of_sign positive = (if positive then PosInf else NegInf)"

subsection \<open>Rounding to a double\<close>

text \<open>
  A double has a significand of 53 bits. For a positive real \<open>a\<close>, \<open>exponent a\<close> is
  the \<open>e\<close> with \<open>2 ^ e \<le> a < 2 ^ (e + 1)\<close>, found by halving or doubling, and not
  less than -1022, the exponent of the subnormal numbers. The doubles around \<open>a\<close>
  are the multiples of \<open>2 ^ (e - 52)\<close>; \<open>fl\<close> takes the nearest one, the one with
  the even multiplier when two are as near (round to nearest, ties to even), and gives
  the infinity of the sign when the rounded magnitude reaches \<open>2 ^ 1024\<close>.
\<close>

definition pow2 :: "int \<Rightarrow> real" where
  "pow2 e = (if 0 \<le> e then 2 ^ nat e else 1 / 2 ^ nat (- e))"

function expo_hi :: "real \<Rightarrow> int \<Rightarrow> int" where
  "expo_hi x e = (if 2 \<le> x then expo_hi (x / 2) (e + 1) else e)"
  by pat_completeness auto
termination
proof (relation "measure (\<lambda>(x, e). nat \<lceil>x\<rceil>)")
  show "wf (measure (\<lambda>(x, e). nat \<lceil>x\<rceil>))" by simp
next
  fix x :: real and e :: int
  assume "2 \<le> x"
  then have "x / 2 \<le> x - 1" by simp
  then have "\<lceil>x / 2\<rceil> \<le> \<lceil>x - 1\<rceil>" by (rule ceiling_mono)
  moreover have "0 < \<lceil>x\<rceil>" using \<open>2 \<le> x\<close> by (simp add: less_ceiling_iff)
  ultimately show "((x / 2, e + 1), (x, e)) \<in> measure (\<lambda>(x, e). nat \<lceil>x\<rceil>)"
    by simp
qed

function expo_lo :: "real \<Rightarrow> int \<Rightarrow> int" where
  "expo_lo x e = (if x < 1 \<and> - 1022 < e then expo_lo (2 * x) (e - 1) else e)"
  by pat_completeness auto
termination
  by (relation "measure (\<lambda>(x, e). nat (e + 1022))") auto

declare expo_hi.simps [simp del]
declare expo_lo.simps [simp del]

definition exponent :: "real \<Rightarrow> int" where
  "exponent a = (if 1 \<le> a then expo_hi a 0 else expo_lo a 0)"

definition round_even :: "real \<Rightarrow> int" where
  "round_even x =
     (let n = \<lfloor>x\<rfloor>; d = x - of_int n
      in if d < 1 / 2 then n else if 1 / 2 < d then n + 1
         else if even n then n else n + 1)"

definition fl :: "real \<Rightarrow> number" where
  "fl x =
     (if x = 0 then Num 0
      else
        (let q = pow2 (exponent \<bar>x\<bar> - 52);
             r = of_int (round_even (\<bar>x\<bar> / q)) * q
         in if 2 ^ 1024 \<le> r then inf_of_sign (0 < x)
            else Num (if 0 < x then r else - r)))"

subsection \<open>Arithmetic and comparisons\<close>

text \<open>
  Negation and \<^verbatim>\<open>Math.abs\<close> are exact. A sum, a product and a quotient of finite
  numbers are rounded. Division never raises: a finite number that is not zero divided
  by zero is an infinity, and \<^verbatim>\<open>0 / 0\<close> is NaN.
\<close>

fun js_neg :: "number \<Rightarrow> number" where
  "js_neg (Num x) = Num (- x)"
| "js_neg PosInf = NegInf"
| "js_neg NegInf = PosInf"
| "js_neg NaN = NaN"

fun js_abs :: "number \<Rightarrow> number" where
  "js_abs (Num x) = Num \<bar>x\<bar>"
| "js_abs PosInf = PosInf"
| "js_abs NegInf = PosInf"
| "js_abs NaN = NaN"

fun js_add :: "number \<Rightarrow> number \<Rightarrow> number" where
  "js_add (Num x) (Num y) = fl (x + y)"
| "js_add NaN _ = NaN"
| "js_add _ NaN = NaN"
| "js_add PosInf NegInf = NaN"
| "js_add NegInf PosInf = NaN"
| "js_add PosInf _ = PosInf"
| "js_add _ PosInf = PosInf"
| "js_add NegInf _ = NegInf"
| "js_add _ NegInf = NegInf"

definition js_sub :: "number \<Rightarrow> number \<Rightarrow> number" where
  "js_sub a b = js_add a (js_neg b)"

fun js_mul :: "number \<Rightarrow> number \<Rightarrow> number" where
  "js_mul (Num x) (Num y) = fl (x * y)"
| "js_mul NaN _ = NaN"
| "js_mul _ NaN = NaN"
| "js_mul PosInf (Num y) = (if y = 0 then NaN else inf_of_sign (0 < y))"
| "js_mul NegInf (Num y) = (if y = 0 then NaN else inf_of_sign (y < 0))"
| "js_mul (Num x) PosInf = (if x = 0 then NaN else inf_of_sign (0 < x))"
| "js_mul (Num x) NegInf = (if x = 0 then NaN else inf_of_sign (x < 0))"
| "js_mul PosInf PosInf = PosInf"
| "js_mul PosInf NegInf = NegInf"
| "js_mul NegInf PosInf = NegInf"
| "js_mul NegInf NegInf = PosInf"

fun js_div :: "number \<Rightarrow> number \<Rightarrow> number" where
  "js_div (Num x) (Num y) =
     (if y \<noteq> 0 then fl (x / y)
      else if x = 0 then NaN else inf_of_sign (0 < x))"
| "js_div NaN _ = NaN"
| "js_div _ NaN = NaN"
| "js_div (Num x) PosInf = Num 0"
| "js_div (Num x) NegInf = Num 0"
| "js_div PosInf (Num y) = inf_of_sign (0 \<le> y)"
| "js_div NegInf (Num y) = inf_of_sign (y < 0)"
| "js_div PosInf PosInf = NaN"
| "js_div PosInf NegInf = NaN"
| "js_div NegInf PosInf = NaN"
| "js_div NegInf NegInf = NaN"

text \<open>Comparisons: every comparison with NaN is false.\<close>

fun js_lt :: "number \<Rightarrow> number \<Rightarrow> bool" where
  "js_lt (Num x) (Num y) = (x < y)"
| "js_lt NaN _ = False"
| "js_lt _ NaN = False"
| "js_lt _ NegInf = False"
| "js_lt PosInf _ = False"
| "js_lt NegInf _ = True"
| "js_lt _ PosInf = True"

fun js_le :: "number \<Rightarrow> number \<Rightarrow> bool" where
  "js_le (Num x) (Num y) = (x \<le> y)"
| "js_le NaN _ = False"
| "js_le _ NaN = False"
| "js_le NegInf _ = True"
| "js_le _ PosInf = True"
| "js_le _ NegInf = False"
| "js_le PosInf _ = False"

definition js_gt :: "number \<Rightarrow> number \<Rightarrow> bool" where
  "js_gt a b = js_lt b a"

definition js_ge :: "number \<Rightarrow> number \<Rightarrow> bool" where
  "js_ge a b = js_le b a"

text \<open>Strict equality \<^verbatim>\<open>===\<close> of two numbers: NaN is equal to nothing.\<close>

definition js_eq :: "number \<Rightarrow> number \<Rightarrow> bool" where
  "js_eq a b = (a \<noteq> NaN \<and> a = b)"

definition is_finite :: "number \<Rightarrow> bool" where
  "is_finite a = (case a of Num _ \<Rightarrow> True | _ \<Rightarrow> False)"

subsection \<open>Values of a REAL column\<close>

text \<open>
  A REAL column holds NULL (\<open>None\<close>) or a number. SQLite has no NaN: binding NaN
  stores NULL, and an arithmetic result that is NaN is NULL. A column that holds NULL
  is read by the handlers as \<^verbatim>\<open>null\<close>, which JavaScript arithmetic and the relational
  operators convert to 0, and which is strictly equal to no number.
\<close>

type_synonym cell = "number option"

definition sql_bind :: "number \<Rightarrow> cell" where
  "sql_bind a = (if a = NaN then None else Some a)"

text \<open>
  A value of a request that is a number or \<^verbatim>\<open>null\<close> is a \<open>cell\<close> too, with
  \<open>None\<close> for \<^verbatim>\<open>null\<close>; bound to a statement, \<^verbatim>\<open>null\<close> is stored as NULL.
\<close>

definition bind_value :: "cell \<Rightarrow> cell" where
  "bind_value c = (case c of None \<Rightarrow> None | Some a \<Rightarrow> sql_bind a)"

definition to_number :: "cell \<Rightarrow> number" where
  "to_number c = (case c of None \<Rightarrow> Num 0 | Some a \<Rightarrow> a)"

definition cell_eq :: "cell \<Rightarrow> number \<Rightarrow> bool" where
  "cell_eq c b = (case c of None \<Rightarrow> False | Some a \<Rightarrow> js_eq a b)"

definition sql_add :: "cell \<Rightarrow> cell \<Rightarrow> cell" where
  "sql_add c d = (case (c, d) of (Some a, Some b) \<Rightarrow> sql_bind (js_add a b) | _ \<Rightarrow> None)"

definition sql_sub :: "cell \<Rightarrow> cell \<Rightarrow> cell" where
  "sql_sub c d = (case (c, d) of (Some a, Some b) \<Rightarrow> sql_bind (js_sub a b) | _ \<Rightarrow> None)"

definition cell_finite :: "cell \<Rightarrow> bool" where
  "cell_finite c = (case c of Some (Num _) \<Rightarrow> True | _ \<Rightarrow> False)"

text \<open>The real number a finite value stands for (0 for the others).\<close>

definition num_real :: "number \<Rightarrow> real" where
  "num_real a = (case a of Num x \<Rightarrow> x | _ \<Rightarrow> 0)"

definition cell_real :: "cell \<Rightarrow> real" where
  "cell_real c = (case c of Some (Num x) \<Rightarrow> x | _ \<Rightarrow> 0)"

section \<open>Scoring\<close>

text \<open>
  The body of the settlement loop of the reveal handler (server.ts, lines 156 to 170),
  as a function of the submission's \<^verbatim>\<open>predicted_value\<close> and \<^verbatim>\<open>bid_amount\<close> columns and of
  the request's \<^verbatim>\<open>actualValue\<close>. It returns \<^verbatim>\<open>errorPercent\<close> and \<^verbatim>\<open>finalScore\<close>.
  Note the divisor of \<^verbatim>\<open>errorPercent\<close>: it is \<^verbatim>\<open>actualValue\<close>, not its absolute value.
  The multipliers 3, 2, 1.5 and 1 are doubles.
\<close>

definition error_percent :: "cell \<Rightarrow> number \<Rightarrow> number" where
  "error_percent predicted_value actualValue =
     (let error = js_abs (js_sub (to_number predicted_value) actualValue)
      in if js_eq actualValue (Num 0)
         then (if cell_eq predicted_value (Num 0) then Num 0 else Num 100)
         else js_mul (js_div error actualValue) (Num 100))"

definition multiplier :: "number \<Rightarrow> number" where
  "multiplier errorPercent =
     (if js_le errorPercent (Num 2) then Num 3
      else if js_le errorPercent (Num 5) then Num 2
      else if js_le errorPercent (Num 10) then Num (3 / 2)
      else Num 1)"

definition final_score :: "cell \<Rightarrow> number \<Rightarrow> number" where
  "final_score bid_amount errorPercent =
     (let baseScore = js_mul (to_number bid_amount)
                        (js_div (Num 1) (js_add (Num 1) errorPercent));
          finalScore = js_mul baseScore (multiplier errorPercent)
      in if js_gt errorPercent (Num 25) then Num 0 else finalScore)"

definition scoring :: "cell \<Rightarrow> number \<Rightarrow> cell \<Rightarrow> number \<times> number" where
  "scoring predicted_value actualValue bid_amount =
     (let errorPercent = error_percent predicted_value actualValue
      in (errorPercent, final_score bid_amount errorPercent))"

section \<open>The database\<close>

text \<open>
  The four tables created at start-up (server.ts, lines 14 to 46), each a list of rows
  in insertion order. The columns keep their names, prefixed by the table's initial
  (\<open>t_\<close>, \<open>r_\<close>, \<open>s_\<close>), since a field name is global in a theory. Identifiers and
  the request fields that carry them are integers. The \<^verbatim>\<open>round_id\<close> of a submission can
  be NULL (\<open>None\<close>): the submit handler stores the \<^verbatim>\<open>roundId\<close> it is sent, and JSON
  can send \<^verbatim>\<open>null\<close>.
\<close>

datatype status = Open | Closed | Revealed

record team_row =
  t_id :: int
  t_name :: string
  t_balance :: cell

record round_row =
  r_id :: int
  r_theme :: string
  r_actual_value :: cell
  r_status :: status

record submission_row =
  s_id :: int
  s_team_id :: int
  s_round_id :: "int option"
  s_predicted_value :: cell
  s_bid_amount :: cell
  s_score :: cell
  s_error_percent :: cell

text \<open>
  The three \<open>seq_\<close> fields are the rows of \<^verbatim>\<open>sqlite_sequence\<close>: the largest rowid an
  AUTOINCREMENT table has ever given out (0 when the table has no row there).
\<close>

record db =
  teams :: "team_row list"
  rounds :: "round_row list"
  settings :: "string \<rightharpoonup> string"
  submissions :: "submission_row list"
  seq_teams :: int
  seq_rounds :: int
  seq_submissions :: int

definition initial_db :: db where
  "initial_db = \<lparr> teams = [], rounds = [],
     settings = [''game_title'' \<mapsto> ''DATA PARADOX''],
     submissions = [], seq_teams = 0, seq_rounds = 0, seq_submissions = 0 \<rparr>"

text \<open>
  The rowid of an inserted row of an AUTOINCREMENT table: one more than the largest of
  the recorded sequence value and the rowids in the table.
\<close>

definition next_rowid :: "int \<Rightarrow> int list \<Rightarrow> int" where
  "next_rowid seq ids = fold max ids seq + 1"

text \<open>
  What the program does not fix itself: the environment variable \<^verbatim>\<open>ADMIN_PASSWORD\<close>,
  and whether the SQLite build enforces the FOREIGN KEY clauses of the schema.
\<close>

record config =
  ADMIN_PASSWORD :: "string option"
  foreign_keys :: bool

section \<open>Responses and broadcast events\<close>

datatype body =
    Success
  | Error string
  | TeamJson team_row
  | RoundJson int string
  | InternalServerError

type_synonym response = "nat \<times> body"

datatype event =
    SETTINGS_UPDATED string string
  | ROUND_STARTED int string status
  | SUBMISSION_RECEIVED int
  | ROUND_REVEALED int number
  | GAME_RESET

text \<open>
  A handler takes the database and returns the database after the request, the response
  and the events it passes to \<^verbatim>\<open>broadcast\<close>, in order.
\<close>

type_synonym outcome = "db \<times> response \<times> event list"

section \<open>The handlers\<close>

text \<open>\<^verbatim>\<open>process.env.ADMIN_PASSWORD || 'admin123'\<close>: an unset or empty variable is falsy.\<close>

definition correctPassword :: "config \<Rightarrow> string" where
  "correctPassword cfg =
     (case ADMIN_PASSWORD cfg of
        None \<Rightarrow> ''admin123''
      | Some p \<Rightarrow> if p = [] then ''admin123'' else p)"

text \<open>The middleware \<^verbatim>\<open>adminAuth\<close>: the header \<^verbatim>\<open>x-admin-password\<close> may be absent.\<close>

definition adminAuth :: "config \<Rightarrow> string option \<Rightarrow> bool" where
  "adminAuth cfg password = (password = Some (correctPassword cfg))"

definition unauthorized :: "db \<Rightarrow> outcome" where
  "unauthorized s = (s, (401, Error ''Unauthorized''), [])"

text \<open>POST /api/admin/login\<close>

definition login :: "config \<Rightarrow> string option \<Rightarrow> db \<Rightarrow> outcome" where
  "login cfg password s =
     (if password = Some (correctPassword cfg) then (s, (200, Success), [])
      else (s, (401, Error ''Incorrect password''), []))"

text \<open>POST /api/admin/settings: INSERT OR REPLACE on the primary key.\<close>

definition updateSetting :: "config \<Rightarrow> string option \<Rightarrow> string \<Rightarrow> string \<Rightarrow> db \<Rightarrow> outcome" where
  "updateSetting cfg password key val s =
     (if \<not> adminAuth cfg password then unauthorized s
      else (s\<lparr>settings := (settings s)(key \<mapsto> val)\<rparr>, (200, Success),
            [SETTINGS_UPDATED key val]))"

text \<open>
  POST /api/teams/join. The INSERT fails on the UNIQUE name; the handler then answers
  with the team of that name. The balance of a new team is the column's default, 2000.
  (The answer 400 needs an INSERT that fails with no team of that name, which a name
  that is a string cannot cause.)
\<close>

definition join :: "string \<Rightarrow> db \<Rightarrow> outcome" where
  "join name s =
     (case find (\<lambda>t. t_name t = name) (teams s) of
        Some team \<Rightarrow> (s, (200, TeamJson team), [])
      | None \<Rightarrow>
          (let i = next_rowid (seq_teams s) (map t_id (teams s));
               team = \<lparr> t_id = i, t_name = name, t_balance = Some (Num 2000) \<rparr>
           in (s\<lparr>teams := teams s @ [team], seq_teams := i\<rparr>, (200, TeamJson team), [])))"

text \<open>
  GET /api/rounds/current: \<^verbatim>\<open>ORDER BY id DESC LIMIT 1\<close>, the row of the largest id
  (\<open>latest\<close> keeps the later of two rows).
\<close>

definition latest :: "round_row \<Rightarrow> round_row \<Rightarrow> round_row" where
  "latest x best = (if r_id best < r_id x then x else best)"

definition currentRound :: "db \<Rightarrow> round_row option" where
  "currentRound s = (case rounds s of [] \<Rightarrow> None | r # rs \<Rightarrow> Some (fold latest rs r))"

text \<open>POST /api/admin/rounds\<close>

definition startRound :: "config \<Rightarrow> string option \<Rightarrow> string \<Rightarrow> db \<Rightarrow> outcome" where
  "startRound cfg password theme s =
     (if \<not> adminAuth cfg password then unauthorized s
      else
        (let rs = map (\<lambda>r. if r_status r \<noteq> Revealed then r\<lparr>r_status := Revealed\<rparr> else r)
                    (rounds s);
             i = next_rowid (seq_rounds s) (map r_id rs);
             round = \<lparr> r_id = i, r_theme = theme, r_actual_value = None, r_status = Open \<rparr>
         in (s\<lparr>rounds := rs @ [round], seq_rounds := i\<rparr>, (200, RoundJson i theme),
             [ROUND_STARTED i theme Open])))"

text \<open>
  POST /api/submissions. The checks are those of the source, in its order: the team and
  its balance, then an existing submission of the team for the round. Nothing reads the
  round. The \<^verbatim>\<open>predictedValue\<close> and the \<^verbatim>\<open>bidAmount\<close> of the request are numbers or
  \<^verbatim>\<open>null\<close>; the operator \<^verbatim>\<open><\<close> of the balance check reads \<^verbatim>\<open>null\<close> as 0, on either
  side. The \<^verbatim>\<open>roundId\<close> of the request is a number or \<^verbatim>\<open>null\<close> (\<open>None\<close>); the
  comparison \<^verbatim>\<open>round_id = ?\<close> of the second check is SQL's, which is true of no row when
  either side is NULL (\<open>sql_eq\<close>). With foreign keys enforced the INSERT of a row
  whose round does not exist throws, and Express answers 500; a NULL \<^verbatim>\<open>round_id\<close>
  refers to no row and violates no foreign key. (A \<^verbatim>\<open>teamId\<close> that is \<^verbatim>\<open>null\<close>
  selects no team, as an integer that is the id of no team does.)
\<close>

definition sql_eq :: "int option \<Rightarrow> int option \<Rightarrow> bool" where
  "sql_eq c d = (c \<noteq> None \<and> c = d)"

definition submit ::
  "config \<Rightarrow> int \<Rightarrow> int option \<Rightarrow> cell \<Rightarrow> cell \<Rightarrow> db \<Rightarrow> outcome" where
  "submit cfg teamId roundId predictedValue bidAmount s =
     (case find (\<lambda>t. t_id t = teamId) (teams s) of
        None \<Rightarrow> (s, (400, Error ''Insufficient balance''), [])
      | Some team \<Rightarrow>
          if js_lt (to_number (t_balance team)) (to_number bidAmount)
          then (s, (400, Error ''Insufficient balance''), [])
          else if find (\<lambda>x. s_team_id x = teamId \<and> sql_eq (s_round_id x) roundId)
                    (submissions s) \<noteq> None
          then (s, (400, Error ''Already submitted for this round''), [])
          else if foreign_keys cfg \<and>
                  (case roundId of None \<Rightarrow> False
                   | Some r \<Rightarrow> r \<notin> set (map r_id (rounds s)))
          then (s, (500, InternalServerError), [])
          else
            (let i = next_rowid (seq_submissions s) (map s_id (submissions s));
                 sub = \<lparr> s_id = i, s_team_id = teamId, s_round_id = roundId,
                         s_predicted_value = bind_value predictedValue,
                         s_bid_amount = bind_value bidAmount,
                         s_score = Some (Num 0), s_error_percent = None \<rparr>
             in (s\<lparr>submissions := submissions s @ [sub], seq_submissions := i\<rparr>,
                 (200, Success), [SUBMISSION_RECEIVED teamId])))"

text \<open>
  POST /api/admin/rounds/reveal. \<open>settle\<close> is one iteration of the loop over the
  submissions selected before it: the two UPDATE statements, on the submission of that
  id and on the team of that id. The \<^verbatim>\<open>roundId\<close> of the request is an integer here.
  (With \<^verbatim>\<open>null\<close> the UPDATE and the SELECT match no row, as they do with an integer
  that is the id of no round and of no submission's round.)
\<close>

definition settle :: "number \<Rightarrow> submission_row \<Rightarrow> db \<Rightarrow> db" where
  "settle actualValue sub s =
     (let (errorPercent, finalScore) =
            scoring (s_predicted_value sub) actualValue (s_bid_amount sub)
      in s\<lparr>submissions :=
             map (\<lambda>x. if s_id x = s_id sub
                      then x\<lparr>s_score := sql_bind finalScore,
                             s_error_percent := sql_bind errorPercent\<rparr>
                      else x) (submissions s),
           teams :=
             map (\<lambda>t. if t_id t = s_team_id sub
                      then t\<lparr>t_balance :=
                               sql_add (sql_sub (t_balance t) (s_bid_amount sub))
                                 (sql_bind finalScore)\<rparr>
                      else t) (teams s)\<rparr>)"

definition reveal :: "config \<Rightarrow> string option \<Rightarrow> int \<Rightarrow> number \<Rightarrow> db \<Rightarrow> outcome" where
  "reveal cfg password roundId actualValue s =
     (if \<not> adminAuth cfg password then unauthorized s
      else
        (let s1 = s\<lparr>rounds :=
                      map (\<lambda>r. if r_id r = roundId
                               then r\<lparr>r_actual_value := sql_bind actualValue,
                                      r_status := Revealed\<rparr>
                               else r) (rounds s)\<rparr>;
             subs = filter (\<lambda>x. s_round_id x = Some roundId) (submissions s1)
         in (fold (settle actualValue) subs s1, (200, Success),
             [ROUND_REVEALED roundId actualValue])))"

text \<open>
  POST /api/admin/reset. The four DELETE statements, children first, violate no
  constraint, so the handler's \<^verbatim>\<open>catch\<close> (500) is not taken.
\<close>

definition reset :: "config \<Rightarrow> string option \<Rightarrow> db \<Rightarrow> outcome" where
  "reset cfg password s =
     (if \<not> adminAuth cfg password then unauthorized s
      else (s\<lparr>submissions := [], rounds := [], teams := [],
              seq_submissions := 0, seq_rounds := 0, seq_teams := 0\<rparr>,
            (200, Success), [GAME_RESET]))"

subsection \<open>Requests and runs\<close>

datatype request =
    Login "string option"
  | UpdateSetting "string option" string string
  | Join string
  | StartRound "string option" string
  | Submit int "int option" cell cell
  | Reveal "string option" int number
  | Reset "string option"

fun handle :: "config \<Rightarrow> request \<Rightarrow> db \<Rightarrow> outcome" where
  "handle cfg (Login pw) s = login cfg pw s"
| "handle cfg (UpdateSetting pw k v) s = updateSetting cfg pw k v s"
| "handle cfg (Join name) s = join name s"
| "handle cfg (StartRound pw theme) s = startRound cfg pw theme s"
| "handle cfg (Submit teamId roundId p b) s = submit cfg teamId roundId p b s"
| "handle cfg (Reveal pw roundId a) s = reveal cfg pw roundId a s"
| "handle cfg (Reset pw) s = reset cfg pw s"

text \<open>
  The database after a sequence of requests, served one after the other: the database
  calls are synchronous, so a handler runs to its end before the next request is taken.
  The GET routes read the database and change nothing; they are not requests here.
\<close>

definition run :: "config \<Rightarrow> request list \<Rightarrow> db \<Rightarrow> db" where
  "run cfg reqs s = fold (\<lambda>req s. fst (handle cfg req s)) reqs s"

section \<open>Notions used in the statements\<close>

text \<open>
  The pairs of a team and a round that have a submission, in the order of the
  submissions. A submission whose \<^verbatim>\<open>round_id\<close> is NULL is for no round and gives no
  pair.
\<close>

fun keys_of :: "submission_row list \<Rightarrow> (int \<times> int) list" where
  "keys_of [] = []"
| "keys_of (x # xs) =
     (case s_round_id x of
        None \<Rightarrow> keys_of xs
      | Some r \<Rightarrow> (s_team_id x, r) # keys_of xs)"

definition round_keys :: "db \<Rightarrow> (int \<times> int) list" where
  "round_keys s = keys_of (submissions s)"

text \<open>
  What the schema's constraints and the checks of submit keep true of the database: the
  primary keys of the teams and of the submissions, one submission for a team and a
  round, and, where foreign keys are enforced, that the round of every submission that
  is for a round exists.
\<close>

definition db_ok :: "config \<Rightarrow> db \<Rightarrow> bool" where
  "db_ok cfg s =
     (distinct (map t_id (teams s)) \<and>
      distinct (map s_id (submissions s)) \<and>
      distinct (round_keys s) \<and>
      (foreign_keys cfg \<longrightarrow>
         (\<forall>k\<in>set (round_keys s). snd k \<in> set (map r_id (rounds s)))))"

text \<open>
  The checks of the submit handler, as predicates of the database: the balance check,
  the existing submission, and the foreign key of the row to insert. \<open>accepts\<close> is
  their conjunction, and \<open>new_submission\<close> the row an accepted submit inserts.
\<close>

definition balance_covers :: "db \<Rightarrow> int \<Rightarrow> cell \<Rightarrow> bool" where
  "balance_covers s teamId bidAmount =
     (case find (\<lambda>t. t_id t = teamId) (teams s) of
        None \<Rightarrow> False
      | Some team \<Rightarrow> \<not> js_lt (to_number (t_balance team)) (to_number bidAmount))"

definition already_submitted :: "db \<Rightarrow> int \<Rightarrow> int \<Rightarrow> bool" where
  "already_submitted s teamId roundId = ((teamId, roundId) \<in> set (round_keys s))"

definition duplicate :: "db \<Rightarrow> int \<Rightarrow> int option \<Rightarrow> bool" where
  "duplicate s teamId roundId =
     (case roundId of None \<Rightarrow> False | Some r \<Rightarrow> already_submitted s teamId r)"

definition fk_allows :: "config \<Rightarrow> db \<Rightarrow> int option \<Rightarrow> bool" where
  "fk_allows cfg s roundId =
     (case roundId of
        None \<Rightarrow> True
      | Some r \<Rightarrow> \<not> foreign_keys cfg \<or> r \<in> set (map r_id (rounds s)))"

definition accepts :: "config \<Rightarrow> db \<Rightarrow> int \<Rightarrow> int option \<Rightarrow> cell \<Rightarrow> bool" where
  "accepts cfg s teamId roundId bidAmount =
     (balance_covers s teamId bidAmount \<and> \<not> duplicate s teamId roundId \<and>
      fk_allows cfg s roundId)"

definition new_submission ::
  "db \<Rightarrow> int \<Rightarrow> int option \<Rightarrow> cell \<Rightarrow> cell \<Rightarrow> submission_row" where
  "new_submission s teamId roundId predictedValue bidAmount =
     \<lparr> s_id = next_rowid (seq_submissions s) (map s_id (submissions s)),
       s_team_id = teamId, s_round_id = roundId,
       s_predicted_value = bind_value predictedValue,
       s_bid_amount = bind_value bidAmount,
       s_score = Some (Num 0), s_error_percent = None \<rparr>"

text \<open>The same database with other statuses on its rounds.\<close>

definition with_status :: "(round_row \<Rightarrow> status) \<Rightarrow> db \<Rightarrow> db" where
  "with_status f s = s\<lparr>rounds := map (\<lambda>r. r\<lparr>r_status := f r\<rparr>) (rounds s)\<rparr>"

text \<open>The submissions of a round, as the reveal handler selects them.\<close>

definition round_submissions :: "int \<Rightarrow> db \<Rightarrow> submission_row list" where
  "round_submissions roundId s =
     filter (\<lambda>x. s_round_id x = Some roundId) (submissions s)"

text \<open>
  What a reveal of a round makes of a row, row by row. The round of that id gets the
  actual value and the status revealed. A submission of the round gets the error in
  percent and the score computed from its own prediction and bid. The team of a
  submission of the round gets the balance that SQLite computes from
  \<^verbatim>\<open>balance - bid_amount + score\<close>, a difference and a sum of doubles.
\<close>

definition revealed_round :: "int \<Rightarrow> number \<Rightarrow> round_row \<Rightarrow> round_row" where
  "revealed_round roundId actualValue r =
     (if r_id r = roundId
      then r\<lparr>r_actual_value := sql_bind actualValue, r_status := Revealed\<rparr>
      else r)"

definition settled_submission :: "int \<Rightarrow> number \<Rightarrow> submission_row \<Rightarrow> submission_row" where
  "settled_submission roundId actualValue x =
     (if s_round_id x = Some roundId
      then x\<lparr>s_score :=
               sql_bind (snd (scoring (s_predicted_value x) actualValue (s_bid_amount x))),
             s_error_percent :=
               sql_bind (fst (scoring (s_predicted_value x) actualValue (s_bid_amount x)))\<rparr>
      else x)"

definition settled_balance :: "number \<Rightarrow> submission_row \<Rightarrow> cell \<Rightarrow> cell" where
  "settled_balance actualValue x balance =
     sql_add (sql_sub balance (s_bid_amount x))
       (sql_bind (snd (scoring (s_predicted_value x) actualValue (s_bid_amount x))))"

definition settled_team :: "int \<Rightarrow> number \<Rightarrow> db \<Rightarrow> team_row \<Rightarrow> team_row" where
  "settled_team roundId actualValue s t =
     (case find (\<lambda>x. s_team_id x = t_id t) (round_submissions roundId s) of
        None \<Rightarrow> t
      | Some x \<Rightarrow> t\<lparr>t_balance := settled_balance actualValue x (t_balance t)\<rparr>)"

text \<open>
  The sum of the balances, and the score less the bid of a submission, as real numbers
  (a balance, bid or score that is not finite counts as 0).
\<close>

definition total_balance :: "db \<Rightarrow> real" where
  "total_balance s = sum_list (map (\<lambda>t. cell_real (t_balance t)) (teams s))"

definition net_result :: "number \<Rightarrow> submission_row \<Rightarrow> real" where
  "net_result actualValue x =
     num_real (snd (scoring (s_predicted_value x) actualValue (s_bid_amount x)))
       - cell_real (s_bid_amount x)"

definition is_reveal :: "request \<Rightarrow> bool" where
  "is_reveal req = (case req of Reveal _ _ _ \<Rightarrow> True | _ \<Rightarrow> False)"

text \<open>A number that is zero or more, infinite or not.\<close>

definition nonneg :: "number \<Rightarrow> bool" where
  "nonneg a = js_le (Num 0) a"

subsection \<open>The scoring rule in the specification's words\<close>

text \<open>
  Section 4.3 of the specification, on real numbers: the error in percent is taken
  against the absolute value of the actual value.
\<close>

definition spec_error_percent :: "real \<Rightarrow> real \<Rightarrow> real" where
  "spec_error_percent p a =
     (if a = 0 then (if p = 0 then 0 else 100) else (\<bar>p - a\<bar> / \<bar>a\<bar>) * 100)"

definition spec_multiplier :: "real \<Rightarrow> real" where
  "spec_multiplier e =
     (if e \<le> 2 then 3 else if e \<le> 5 then 2 else if e \<le> 10 then 3 / 2 else 1)"

definition spec_score :: "real \<Rightarrow> real \<Rightarrow> real \<Rightarrow> real" where
  "spec_score p a b =
     (let e = spec_error_percent p a
      in if e > 25 then 0 else b * (1 / (1 + e)) * spec_multiplier e)"

section \<open>Example games\<close>

text \<open>
  A server with the default password and enforced foreign keys. In \<open>played\<close> two
  teams have joined, a round is open and the first team has bid 50 on the prediction
  100; in \<open>revealed_once\<close> that round has been revealed with the actual value 100. In
  \<open>cold\<close> the only team has bid 1 on the prediction -4137, and in \<open>near\<close> it has bid
  50 on the prediction 102. In \<open>owing\<close> the only team has the balance -1073, after the
  reveal of \<open>cold\<close> with the actual value -4096, and a new round is open. In
  \<open>stray\<close>, on a server that does not enforce foreign keys, a team has a submission
  for a round that does not exist.
\<close>

definition cfg0 :: config where
  "cfg0 = \<lparr> ADMIN_PASSWORD = None, foreign_keys = True \<rparr>"

definition admin :: "string option" where
  "admin = Some ''admin123''"

definition played :: db where
  "played = run cfg0 [Join ''ada'', Join ''bob'', StartRound admin ''rainfall'',
                      Submit 1 (Some 1) (Some (Num 100)) (Some (Num 50))] initial_db"

definition revealed_once :: db where
  "revealed_once = fst (reveal cfg0 admin 1 (Num 100) played)"

definition cold :: db where
  "cold = run cfg0 [Join ''ada'', StartRound admin ''temperature'',
                    Submit 1 (Some 1) (Some (Num (- 4137))) (Some (Num 1))] initial_db"

definition near :: db where
  "near = run cfg0 [Join ''ada'', StartRound admin ''rainfall'',
                    Submit 1 (Some 1) (Some (Num 102)) (Some (Num 50))] initial_db"

definition owing :: db where
  "owing = run cfg0 [Reveal admin 1 (Num (- 4096)), StartRound admin ''wind''] cold"

definition cfg_no_fk :: config where
  "cfg_no_fk = \<lparr> ADMIN_PASSWORD = None, foreign_keys = False \<rparr>"

definition stray :: db where
  "stray = run cfg_no_fk [Join ''ada'', Submit 1 (Some 9) (Some (Num 100)) (Some (Num 50))] initial_db"

section \<open>Evaluation\<close>

lemmas fl_eval = fl_def exponent_def pow2_def round_even_def expo_hi.simps expo_lo.simps

lemmas num_defs = scoring_def error_percent_def final_score_def multiplier_def
  to_number_def js_sub_def js_eq_def cell_eq_def js_gt_def sql_bind_def sql_add_def
  sql_sub_def inf_of_sign_def

lemmas handler_defs = run_def join_def submit_def startRound_def reveal_def reset_def
  settle_def adminAuth_def correctPassword_def next_rowid_def unauthorized_def
  initial_db_def cfg0_def admin_def sql_eq_def bind_value_def

text \<open>
  Roundings: the double of 0.1, a tie that goes to the even neighbour, a sum above it
  that goes up, and the reciprocal of 3.
\<close>

lemma fl_examples:
  "fl (1 / 10) = Num (3602879701896397 / 2 ^ 55)"
  "fl (2 ^ 53 + 1) = Num (2 ^ 53)"
  "fl (2 ^ 53 + 3) = Num (2 ^ 53 + 4)"
  "fl (1 / 3) = Num (6004799503160661 / 2 ^ 54)"
  "fl 2000 = Num 2000"
  by (simp_all add: fl_eval Let_def)

lemma admin_ok: "adminAuth cfg0 admin"
  by (simp add: adminAuth_def correctPassword_def cfg0_def admin_def)

lemma played_eq:
  "played = \<lparr> teams = [\<lparr>t_id = 1, t_name = ''ada'', t_balance = Some (Num 2000)\<rparr>,
                        \<lparr>t_id = 2, t_name = ''bob'', t_balance = Some (Num 2000)\<rparr>],
     rounds = [\<lparr>r_id = 1, r_theme = ''rainfall'', r_actual_value = None, r_status = Open\<rparr>],
     settings = [''game_title'' \<mapsto> ''DATA PARADOX''],
     submissions = [\<lparr>s_id = 1, s_team_id = 1, s_round_id = Some 1,
                      s_predicted_value = Some (Num 100), s_bid_amount = Some (Num 50),
                      s_score = Some (Num 0), s_error_percent = None\<rparr>],
     seq_teams = 2, seq_rounds = 1, seq_submissions = 1 \<rparr>"
  by (simp add: played_def handler_defs sql_bind_def to_number_def Let_def)

lemma scoring_exact: "scoring (Some (Num 100)) (Num 100) (Some (Num 50)) = (Num 0, Num 150)"
  by (simp add: num_defs fl_eval Let_def)

lemma revealed_once_eq:
  "revealed_once = \<lparr> teams = [\<lparr>t_id = 1, t_name = ''ada'', t_balance = Some (Num 2100)\<rparr>,
                        \<lparr>t_id = 2, t_name = ''bob'', t_balance = Some (Num 2000)\<rparr>],
     rounds = [\<lparr>r_id = 1, r_theme = ''rainfall'', r_actual_value = Some (Num 100),
                r_status = Revealed\<rparr>],
     settings = [''game_title'' \<mapsto> ''DATA PARADOX''],
     submissions = [\<lparr>s_id = 1, s_team_id = 1, s_round_id = Some 1,
                      s_predicted_value = Some (Num 100), s_bid_amount = Some (Num 50),
                      s_score = Some (Num 150), s_error_percent = Some (Num 0)\<rparr>],
     seq_teams = 2, seq_rounds = 1, seq_submissions = 1 \<rparr>"
  by (simp add: revealed_once_def played_eq reveal_def settle_def admin_ok scoring_exact
      sql_bind_def sql_add_def sql_sub_def js_sub_def fl_eval Let_def)

lemma cold_eq:
  "cold = \<lparr> teams = [\<lparr>t_id = 1, t_name = ''ada'', t_balance = Some (Num 2000)\<rparr>],
     rounds = [\<lparr>r_id = 1, r_theme = ''temperature'', r_actual_value = None, r_status = Open\<rparr>],
     settings = [''game_title'' \<mapsto> ''DATA PARADOX''],
     submissions = [\<lparr>s_id = 1, s_team_id = 1, s_round_id = Some 1,
                      s_predicted_value = Some (Num (- 4137)), s_bid_amount = Some (Num 1),
                      s_score = Some (Num 0), s_error_percent = None\<rparr>],
     seq_teams = 1, seq_rounds = 1, seq_submissions = 1 \<rparr>"
  by (simp add: cold_def handler_defs sql_bind_def to_number_def Let_def)

lemma scoring_cold:
  "scoring (Some (Num (- 4137))) (Num (- 4096)) (Some (Num 1))
     = (Num (- (1025 / 1024)), Num (- 3072))"
  by (simp add: num_defs fl_eval Let_def)

lemma near_eq:
  "near = \<lparr> teams = [\<lparr>t_id = 1, t_name = ''ada'', t_balance = Some (Num 2000)\<rparr>],
     rounds = [\<lparr>r_id = 1, r_theme = ''rainfall'', r_actual_value = None, r_status = Open\<rparr>],
     settings = [''game_title'' \<mapsto> ''DATA PARADOX''],
     submissions = [\<lparr>s_id = 1, s_team_id = 1, s_round_id = Some 1,
                      s_predicted_value = Some (Num 102), s_bid_amount = Some (Num 50),
                      s_score = Some (Num 0), s_error_percent = None\<rparr>],
     seq_teams = 1, seq_rounds = 1, seq_submissions = 1 \<rparr>"
  by (simp add: near_def handler_defs sql_bind_def to_number_def Let_def)

text \<open>
  The prediction 102 of the actual value 100 with the bid 50: the error is 2 percent,
  and the score is the double next below 50.
\<close>

lemma error_percent_near: "error_percent (Some (Num 102)) (Num 100) = Num 2"
  by (simp add: error_percent_def to_number_def js_sub_def js_eq_def fl_eval Let_def)

lemma final_score_near: "final_score (Some (Num 50)) (Num 2) = Num (50 - 1 / 2 ^ 47)"
  by (simp add: final_score_def multiplier_def to_number_def js_gt_def fl_eval Let_def)

lemma scoring_near:
  "scoring (Some (Num 102)) (Num 100) (Some (Num 50)) = (Num 2, Num (50 - 1 / 2 ^ 47))"
  by (simp add: scoring_def error_percent_near final_score_near)

lemma settled_balance_near:
  "sql_add (sql_sub (Some (Num 2000)) (Some (Num 50))) (sql_bind (Num (50 - 1 / 2 ^ 47)))
     = Some (Num 2000)"
  by (simp add: sql_add_def sql_sub_def sql_bind_def js_sub_def fl_eval Let_def)

lemma owing_eq:
  "owing = \<lparr> teams = [\<lparr>t_id = 1, t_name = ''ada'', t_balance = Some (Num (- 1073))\<rparr>],
     rounds = [\<lparr>r_id = 1, r_theme = ''temperature'', r_actual_value = Some (Num (- 4096)),
                r_status = Revealed\<rparr>,
               \<lparr>r_id = 2, r_theme = ''wind'', r_actual_value = None, r_status = Open\<rparr>],
     settings = [''game_title'' \<mapsto> ''DATA PARADOX''],
     submissions = [\<lparr>s_id = 1, s_team_id = 1, s_round_id = Some 1,
                      s_predicted_value = Some (Num (- 4137)), s_bid_amount = Some (Num 1),
                      s_score = Some (Num (- 3072)),
                      s_error_percent = Some (Num (- (1025 / 1024)))\<rparr>],
     seq_teams = 1, seq_rounds = 2, seq_submissions = 1 \<rparr>"
  by (simp add: owing_def cold_eq run_def reveal_def startRound_def settle_def admin_ok
      scoring_cold next_rowid_def sql_bind_def sql_add_def sql_sub_def js_sub_def fl_eval
      Let_def)

section \<open>Fresh identifiers and the current round\<close>

lemma fold_max_ge: "seq \<le> fold max ids (seq::int)"
proof (induction ids arbitrary: seq)
  case Nil
  then show ?case by simp
next
  case (Cons y ys)
  have "seq \<le> max y seq" by simp
  also have "\<dots> \<le> fold max ys (max y seq)" by (rule Cons.IH)
  finally show ?case by simp
qed

lemma fold_max_mem: "x \<in> set ids \<Longrightarrow> x \<le> fold max ids (seq::int)"
proof (induction ids arbitrary: seq)
  case Nil
  then show ?case by simp
next
  case (Cons y ys)
  show ?case
  proof (cases "x = y")
    case True
    have "max y seq \<le> fold max ys (max y seq)" by (rule fold_max_ge)
    with True show ?thesis by simp
  next
    case False
    with Cons show ?thesis by simp
  qed
qed

lemma next_rowid_fresh: "x \<in> set ids \<Longrightarrow> x < next_rowid seq ids"
  using fold_max_mem [of x ids seq] by (simp add: next_rowid_def)

lemma next_rowid_notin: "next_rowid seq ids \<notin> set ids"
  using next_rowid_fresh [of "next_rowid seq ids" ids seq] by auto

lemma fold_latest_mem: "fold latest rs r \<in> set (r # rs)"
  by (induction rs arbitrary: r) (auto simp: latest_def)

lemma currentRound_append:
  assumes "\<forall>x\<in>set rs. r_id x < r_id n" and "rounds s = rs @ [n]"
  shows "currentRound s = Some n"
proof (cases rs)
  case Nil
  with assms show ?thesis by (simp add: currentRound_def)
next
  case (Cons r rs')
  have "fold latest rs' r \<in> set (r # rs')" by (rule fold_latest_mem)
  with assms Cons have "r_id (fold latest rs' r) < r_id n" by auto
  then show ?thesis
    using Cons assms(2) by (simp add: currentRound_def latest_def)
qed

lemma force_revealed_map:
  "map (\<lambda>r. if r_status r \<noteq> Revealed then r\<lparr>r_status := Revealed\<rparr> else r) rs
   = map (\<lambda>r. r\<lparr>r_status := Revealed\<rparr>) rs"
  by (induction rs) auto

section \<open>Pairs of a team and a round\<close>

lemma keys_of_append: "keys_of (xs @ ys) = keys_of xs @ keys_of ys"
  by (induction xs) (auto split: option.splits)

lemma keys_of_mem:
  "((t, r) \<in> set (keys_of xs)) = (\<exists>x\<in>set xs. s_team_id x = t \<and> s_round_id x = Some r)"
  by (induction xs) (auto split: option.splits)

lemma keys_of_map:
  assumes "\<And>x. s_team_id (g x) = s_team_id x" and "\<And>x. s_round_id (g x) = s_round_id x"
  shows "keys_of (map g xs) = keys_of xs"
  by (induction xs) (auto simp: assms split: option.splits)

lemma distinct_keys_round:
  "distinct (keys_of xs) \<Longrightarrow>
   distinct (map s_team_id (filter (\<lambda>x. s_round_id x = Some r) xs))"
proof (induction xs)
  case Nil
  then show ?case by simp
next
  case (Cons x xs)
  show ?case
  proof (cases "s_round_id x = Some r")
    case True
    with Cons.prems have new: "(s_team_id x, r) \<notin> set (keys_of xs)"
      and rest: "distinct (keys_of xs)" by simp_all
    from new have "s_team_id x \<notin> s_team_id ` set (filter (\<lambda>y. s_round_id y = Some r) xs)"
      by (auto simp: keys_of_mem)
    with Cons.IH [OF rest] True show ?thesis by simp
  next
    case False
    from Cons.prems have "distinct (keys_of xs)"
      by (simp split: option.splits)
    with Cons.IH False show ?thesis by simp
  qed
qed

section \<open>What the settlement loop does\<close>

lemma settle_frame [simp]:
  "rounds (settle a sub s) = rounds s"
  "settings (settle a sub s) = settings s"
  "seq_teams (settle a sub s) = seq_teams s"
  "seq_rounds (settle a sub s) = seq_rounds s"
  "seq_submissions (settle a sub s) = seq_submissions s"
  by (simp_all add: settle_def split: prod.splits)

lemma settle_teams:
  "teams (settle a sub s)
   = map (\<lambda>t. if t_id t = s_team_id sub
               then t\<lparr>t_balance := settled_balance a sub (t_balance t)\<rparr> else t) (teams s)"
  by (simp add: settle_def settled_balance_def split: prod.splits)

lemma settle_submissions:
  "submissions (settle a sub s)
   = map (\<lambda>x. if s_id x = s_id sub
               then x\<lparr>s_score :=
                        sql_bind (snd (scoring (s_predicted_value sub) a (s_bid_amount sub))),
                      s_error_percent :=
                        sql_bind (fst (scoring (s_predicted_value sub) a (s_bid_amount sub)))\<rparr>
               else x) (submissions s)"
  by (simp add: settle_def split: prod.splits)

lemma settle_team_ids [simp]: "map t_id (teams (settle a sub s)) = map t_id (teams s)"
  by (simp add: settle_teams comp_def)

lemma settle_sub_ids [simp]:
  "map s_id (submissions (settle a sub s)) = map s_id (submissions s)"
  by (simp add: settle_submissions comp_def)

lemma settle_round_keys [simp]: "round_keys (settle a sub s) = round_keys s"
  unfolding round_keys_def settle_submissions
  by (rule keys_of_map) simp_all

lemma settle_rounds_update:
  "settle a sub (s\<lparr>rounds := rs\<rparr>) = (settle a sub s)\<lparr>rounds := rs\<rparr>"
  by (simp add: settle_def split: prod.splits)

lemma fold_settle_rounds_update:
  "fold (settle a) subs (s\<lparr>rounds := rs\<rparr>) = (fold (settle a) subs s)\<lparr>rounds := rs\<rparr>"
  by (induction subs arbitrary: s) (simp_all add: settle_rounds_update)

lemma fold_settle_frame [simp]:
  "rounds (fold (settle a) subs s) = rounds s"
  "settings (fold (settle a) subs s) = settings s"
  "seq_teams (fold (settle a) subs s) = seq_teams s"
  "seq_rounds (fold (settle a) subs s) = seq_rounds s"
  "seq_submissions (fold (settle a) subs s) = seq_submissions s"
  "map t_id (teams (fold (settle a) subs s)) = map t_id (teams s)"
  "map s_id (submissions (fold (settle a) subs s)) = map s_id (submissions s)"
  "round_keys (fold (settle a) subs s) = round_keys s"
  by (induction subs arbitrary: s) simp_all

text \<open>The loop, row by row: each team and each submission goes through the iterations.\<close>

lemma fold_settle_teams:
  "teams (fold (settle a) subs s)
   = map (\<lambda>t. fold (\<lambda>x t. if t_id t = s_team_id x
                            then t\<lparr>t_balance := settled_balance a x (t_balance t)\<rparr> else t)
                subs t) (teams s)"
proof (induction subs arbitrary: s)
  case Nil
  then show ?case by simp
next
  case (Cons x xs)
  show ?case
    by (simp add: Cons.IH settle_teams comp_def)
qed

lemma fold_settle_submissions:
  "submissions (fold (settle a) subs s)
   = map (\<lambda>y. fold (\<lambda>x y. if s_id y = s_id x
               then y\<lparr>s_score :=
                        sql_bind (snd (scoring (s_predicted_value x) a (s_bid_amount x))),
                      s_error_percent :=
                        sql_bind (fst (scoring (s_predicted_value x) a (s_bid_amount x)))\<rparr>
               else y) subs y) (submissions s)"
proof (induction subs arbitrary: s)
  case Nil
  then show ?case by simp
next
  case (Cons x xs)
  show ?case
    by (simp add: Cons.IH settle_submissions comp_def)
qed

text \<open>With one matching iteration at most, a row goes through that iteration only.\<close>

lemma fold_one_match:
  assumes "distinct (map key subs)"
    and "\<And>x y. k (upd x y) = k y"
  shows "fold (\<lambda>x y. if k y = key x then upd x y else y) subs y
         = (case find (\<lambda>x. key x = k y) subs of None \<Rightarrow> y | Some x \<Rightarrow> upd x y)"
  using assms(1)
proof (induction subs arbitrary: y)
  case Nil
  then show ?case by simp
next
  case (Cons x xs)
  from Cons.prems have d: "distinct (map key xs)" and "key x \<notin> key ` set xs"
    by simp_all
  then have n: "\<forall>z\<in>set xs. key z \<noteq> key x" by (metis imageI)
  show ?case
  proof (cases "k y = key x")
    case True
    have "find (\<lambda>z. key z = k (upd x y)) xs = None"
      using n True by (simp add: find_None_iff assms(2))
    with Cons.IH [OF d, of "upd x y"] True show ?thesis by simp
  next
    case False
    with Cons.IH [OF d, of y] show ?thesis by auto
  qed
qed

lemma find_in_filter:
  assumes "distinct (map key xs)" and "y \<in> set xs"
  shows "find (\<lambda>x. key x = key y) (filter P xs) = (if P y then Some y else None)"
  using assms
proof (induction xs)
  case Nil
  then show ?case by simp
next
  case (Cons x xs)
  show ?case
  proof (cases "x = y")
    case True
    from Cons.prems(1) True have "key y \<notin> key ` set xs" by simp
    then have "\<forall>z\<in>set xs. key z \<noteq> key y" by (metis imageI)
    then have "find (\<lambda>x. key x = key y) (filter P xs) = None"
      by (simp add: find_None_iff)
    with True show ?thesis by simp
  next
    case False
    with Cons.prems have y: "y \<in> set xs" and d: "distinct (map key xs)"
      and "key x \<noteq> key y" by auto
    with Cons.IH [OF d y] show ?thesis by simp
  qed
qed

text \<open>
  The reveal of a round, in closed form, on a database that meets the constraints: no
  part of it depends on the status of a round.
\<close>

lemma reveal_closed_form:
  assumes ok: "db_ok cfg s" and auth: "adminAuth cfg password"
  shows "reveal cfg password roundId a s
         = (s\<lparr>rounds := map (revealed_round roundId a) (rounds s),
              submissions := map (settled_submission roundId a) (submissions s),
              teams := map (settled_team roundId a s) (teams s)\<rparr>,
            (200, Success), [ROUND_REVEALED roundId a])"
proof -
  define subs where "subs = round_submissions roundId s"
  define R where "R = map (revealed_round roundId a) (rounds s)"
  define s2 where "s2 = fold (settle a) subs s"
  have res: "reveal cfg password roundId a s
      = (s2\<lparr>rounds := R\<rparr>, (200, Success), [ROUND_REVEALED roundId a])"
    using auth
    by (simp add: reveal_def Let_def subs_def R_def s2_def round_submissions_def
        revealed_round_def fold_settle_rounds_update)
  have dt: "distinct (map s_team_id subs)"
    using ok unfolding subs_def round_submissions_def db_ok_def round_keys_def
    by (auto intro: distinct_keys_round)
  have di: "distinct (map s_id (submissions s))"
    using ok by (simp add: db_ok_def)
  then have dsi: "distinct (map s_id subs)"
    by (simp add: subs_def round_submissions_def distinct_map_filter)
  have T: "teams s2 = map (settled_team roundId a s) (teams s)"
  proof -
    have "fold (\<lambda>x t. if t_id t = s_team_id x
                   then t\<lparr>t_balance := settled_balance a x (t_balance t)\<rparr> else t) subs t
          = settled_team roundId a s t" for t
      using fold_one_match [OF dt, of t_id
          "\<lambda>x t. t\<lparr>t_balance := settled_balance a x (t_balance t)\<rparr>" t]
      by (simp add: settled_team_def subs_def)
    then show ?thesis
      by (simp add: s2_def fold_settle_teams)
  qed
  have S: "submissions s2 = map (settled_submission roundId a) (submissions s)"
  proof -
    have "fold (\<lambda>x y. if s_id y = s_id x
               then y\<lparr>s_score :=
                        sql_bind (snd (scoring (s_predicted_value x) a (s_bid_amount x))),
                      s_error_percent :=
                        sql_bind (fst (scoring (s_predicted_value x) a (s_bid_amount x)))\<rparr>
               else y) subs y
          = settled_submission roundId a y" if y: "y \<in> set (submissions s)" for y
    proof -
      have f: "find (\<lambda>x. s_id x = s_id y) subs
               = (if s_round_id y = Some roundId then Some y else None)"
        unfolding subs_def round_submissions_def
        by (rule find_in_filter [OF di y])
      show ?thesis
        using fold_one_match [OF dsi, of s_id
          "\<lambda>x y. y\<lparr>s_score :=
                        sql_bind (snd (scoring (s_predicted_value x) a (s_bid_amount x))),
                      s_error_percent :=
                        sql_bind (fst (scoring (s_predicted_value x) a (s_bid_amount x)))\<rparr>" y]
        by (simp add: f settled_submission_def)
    qed
    then show ?thesis
      by (simp add: s2_def fold_settle_submissions)
  qed
  have "s2\<lparr>rounds := R\<rparr>
        = s\<lparr>rounds := R, submissions := map (settled_submission roundId a) (submissions s),
            teams := map (settled_team roundId a s) (teams s)\<rparr>"
    by (rule db.equality) (simp_all add: T S, simp_all add: s2_def)
  then show ?thesis
    by (simp add: res R_def)
qed

section \<open>The constraints hold after every run\<close>

lemma db_ok_initial: "db_ok cfg initial_db"
  by (simp add: db_ok_def initial_db_def round_keys_def)

lemma reveal_db_ok: "db_ok cfg s \<Longrightarrow> db_ok cfg (fst (reveal cfg pw r a s))"
proof -
  assume ok: "db_ok cfg s"
  show ?thesis
  proof (cases "adminAuth cfg pw")
    case False
    with ok show ?thesis by (simp add: reveal_def unauthorized_def)
  next
    case True
    define R where "R = map (\<lambda>x. if r_id x = r
                               then x\<lparr>r_actual_value := sql_bind a, r_status := Revealed\<rparr>
                               else x) (rounds s)"
    define s2 where
      "s2 = fold (settle a) (filter (\<lambda>x. s_round_id x = Some r) (submissions s)) s"
    have res: "fst (reveal cfg pw r a s) = s2\<lparr>rounds := R\<rparr>"
      using True by (simp add: reveal_def Let_def s2_def R_def fold_settle_rounds_update)
    have ids: "map r_id R = map r_id (rounds s)"
      by (simp add: R_def comp_def if_distrib cong: if_cong)
    have k: "round_keys (s2\<lparr>rounds := R\<rparr>) = round_keys s"
      by (simp add: round_keys_def s2_def) (simp add: round_keys_def [symmetric])
    show ?thesis
      using ok unfolding res db_ok_def k
      by (simp add: ids) (simp add: s2_def)
  qed
qed

lemma already_submitted_find:
  "(find (\<lambda>x. s_team_id x = t \<and> sql_eq (s_round_id x) roundId) (submissions s) \<noteq> None)
   = duplicate s t roundId"
  by (cases roundId)
     (auto simp: duplicate_def already_submitted_def round_keys_def keys_of_mem sql_eq_def
        find_None_iff)

lemma submit_cases:
  "submit cfg t roundId p b s =
     (if \<not> balance_covers s t b then (s, (400, Error ''Insufficient balance''), [])
      else if duplicate s t roundId
      then (s, (400, Error ''Already submitted for this round''), [])
      else if \<not> fk_allows cfg s roundId
      then (s, (500, InternalServerError), [])
      else (s\<lparr>submissions := submissions s @ [new_submission s t roundId p b],
              seq_submissions := s_id (new_submission s t roundId p b)\<rparr>,
            (200, Success), [SUBMISSION_RECEIVED t]))"
proof (cases "find (\<lambda>x. t_id x = t) (teams s)")
  case None
  then show ?thesis by (simp add: submit_def balance_covers_def)
next
  case (Some team)
  then show ?thesis
    unfolding submit_def already_submitted_find
    by (cases roundId) (simp_all add: balance_covers_def fk_allows_def new_submission_def Let_def)
qed

lemma submit_db_ok: "db_ok cfg s \<Longrightarrow> db_ok cfg (fst (submit cfg t roundId p b s))"
proof -
  assume ok: "db_ok cfg s"
  show ?thesis
  proof (cases "balance_covers s t b \<and> \<not> duplicate s t roundId \<and> fk_allows cfg s roundId")
    case False
    with ok show ?thesis by (auto simp: submit_cases)
  next
    case True
    define row where "row = new_submission s t roundId p b"
    define new where "new = (case roundId of None \<Rightarrow> [] | Some r \<Rightarrow> [(t, r)])"
    define s' where "s' = s\<lparr>submissions := submissions s @ [row], seq_submissions := s_id row\<rparr>"
    have res: "fst (submit cfg t roundId p b s) = s'"
      using True by (simp add: submit_cases row_def s'_def)
    have "s_id row = next_rowid (seq_submissions s) (map s_id (submissions s))"
      by (simp add: row_def new_submission_def)
    then have fresh: "s_id row \<notin> set (map s_id (submissions s))"
      by (simp only: next_rowid_notin not_False_eq_True)
    have keys: "round_keys s' = round_keys s @ new"
      by (simp add: s'_def round_keys_def keys_of_append row_def new_submission_def new_def
          split: option.splits)
    have d: "distinct (round_keys s @ new)"
      using ok True
      by (cases roundId) (simp_all add: new_def db_ok_def duplicate_def already_submitted_def)
    have fk: "\<forall>k\<in>set (round_keys s @ new). snd k \<in> set (map r_id (rounds s))"
      if "foreign_keys cfg"
      using ok True that
      by (cases roundId) (auto simp: new_def db_ok_def fk_allows_def)
    have 1: "distinct (map t_id (teams s'))"
      using ok by (simp add: s'_def db_ok_def)
    have 2: "distinct (map s_id (submissions s'))"
      using ok fresh by (simp add: s'_def db_ok_def)
    have 3: "rounds s' = rounds s"
      by (simp add: s'_def)
    show ?thesis
      unfolding res db_ok_def keys 3 using 1 2 d fk by blast
  qed
qed

lemma join_db_ok: "db_ok cfg s \<Longrightarrow> db_ok cfg (fst (join name s))"
  using next_rowid_notin [of "seq_teams s" "map t_id (teams s)"]
  by (auto simp: join_def db_ok_def round_keys_def Let_def split: option.splits)

lemma startRound_db_ok: "db_ok cfg s \<Longrightarrow> db_ok cfg (fst (startRound cfg pw theme s))"
  by (auto simp: startRound_def db_ok_def round_keys_def Let_def unauthorized_def
      force_revealed_map image_iff)

lemma handle_db_ok: "db_ok cfg s \<Longrightarrow> db_ok cfg (fst (handle cfg req s))"
proof (cases req)
  case (Login pw)
  assume "db_ok cfg s"
  with Login show ?thesis by (simp add: login_def)
next
  case (UpdateSetting pw k v)
  assume "db_ok cfg s"
  with UpdateSetting show ?thesis
    by (simp add: updateSetting_def unauthorized_def db_ok_def round_keys_def)
next
  case (Join name)
  assume "db_ok cfg s"
  with Join show ?thesis by (simp add: join_db_ok)
next
  case (StartRound pw theme)
  assume "db_ok cfg s"
  with StartRound show ?thesis by (simp add: startRound_db_ok)
next
  case (Submit t r p b)
  assume "db_ok cfg s"
  with Submit show ?thesis by (simp add: submit_db_ok)
next
  case (Reveal pw r a)
  assume "db_ok cfg s"
  with Reveal show ?thesis by (simp add: reveal_db_ok)
next
  case (Reset pw)
  assume "db_ok cfg s"
  with Reset show ?thesis by (simp add: reset_def unauthorized_def db_ok_def round_keys_def)
qed

lemma run_db_ok: "db_ok cfg s \<Longrightarrow> db_ok cfg (run cfg reqs s)"
  unfolding run_def
  by (induction reqs arbitrary: s) (simp_all add: handle_db_ok)

section \<open>Requests that are not a reveal\<close>

lemma other_requests_keep_balances:
  assumes "\<not> is_reveal req" and "t \<in> set (teams (fst (handle cfg req s)))"
  shows "t \<in> set (teams s) \<or>
         (t_balance t = Some (Num 2000) \<and> t_id t \<notin> set (map t_id (teams s)))"
proof (cases req)
  case (Join name)
  then show ?thesis
    using assms(2) next_rowid_notin [of "seq_teams s" "map t_id (teams s)"]
    by (auto simp: join_def Let_def split: option.splits)
next
  case (Submit tid rid p b)
  then show ?thesis
    using assms(2) by (auto simp: submit_cases split: if_splits)
qed (use assms in \<open>auto simp: is_reveal_def login_def updateSetting_def startRound_def
      reset_def unauthorized_def Let_def split: if_splits\<close>)

section \<open>The checks of submit and the statuses\<close>

lemma with_status_frame [simp]:
  "teams (with_status f s) = teams s"
  "submissions (with_status f s) = submissions s"
  "map r_id (rounds (with_status f s)) = map r_id (rounds s)"
  "seq_submissions (with_status f s) = seq_submissions s"
  by (simp_all add: with_status_def comp_def)

lemma with_status_checks [simp]:
  "balance_covers (with_status f s) t b = balance_covers s t b"
  "duplicate (with_status f s) t roundId = duplicate s t roundId"
  "fk_allows cfg (with_status f s) roundId = fk_allows cfg s roundId"
  "new_submission (with_status f s) t roundId p b = new_submission s t roundId p b"
  by (simp_all add: balance_covers_def duplicate_def already_submitted_def round_keys_def
      fk_allows_def new_submission_def split: option.splits)

section \<open>The sign of a score\<close>

text \<open>
  Rounding keeps the sign: a sum, a product or a quotient that is zero or more as a real
  number is zero or more as a double. So for an actual value that is not negative and a
  positive bid the error in percent and the score are not negative.
\<close>

lemma pow2_pos: "0 < pow2 e"
  by (simp add: pow2_def)

lemma round_even_nonneg: "0 \<le> y \<Longrightarrow> 0 \<le> round_even y"
  by (simp add: round_even_def Let_def)

lemma fl_nonneg: "0 \<le> x \<Longrightarrow> nonneg (fl x)"
proof (cases "x = 0")
  case True
  then show ?thesis by (simp add: fl_def nonneg_def)
next
  case False
  assume "0 \<le> x"
  with False have pos: "0 < x" by simp
  define q where "q = pow2 (exponent \<bar>x\<bar> - 52)"
  have "0 \<le> \<bar>x\<bar> / q"
    using pow2_pos [of "exponent \<bar>x\<bar> - 52"] by (simp add: q_def)
  then have "0 \<le> round_even (\<bar>x\<bar> / q)" by (rule round_even_nonneg)
  then have "0 \<le> of_int (round_even (\<bar>x\<bar> / q)) * q"
    using pow2_pos [of "exponent \<bar>x\<bar> - 52"] by (simp add: q_def)
  then show ?thesis
    using pos by (simp add: fl_def Let_def nonneg_def inf_of_sign_def q_def)
qed

lemma fl_cases: "(\<exists>y. fl x = Num y) \<or> fl x = PosInf \<or> fl x = NegInf"
  by (simp add: fl_def Let_def inf_of_sign_def)

lemma nonneg_cases: "nonneg n = ((\<exists>y. n = Num y \<and> 0 \<le> y) \<or> n = PosInf)"
  by (cases n) (simp_all add: nonneg_def)

lemma abs_sub_nonneg: "nonneg (js_abs (js_sub (Num p) (Num a)))"
  using fl_cases [of "p - a"]
  by (auto simp: js_sub_def nonneg_def)

lemma div_nonneg: "nonneg n \<Longrightarrow> 0 < a \<Longrightarrow> nonneg (js_div n (Num a))"
  by (auto simp: nonneg_cases [of n] inf_of_sign_def nonneg_def [of PosInf] intro!: fl_nonneg)

lemma mul_nonneg: "nonneg n \<Longrightarrow> 0 < m \<Longrightarrow> nonneg (js_mul n (Num m))"
  by (auto simp: nonneg_cases [of n] inf_of_sign_def nonneg_def [of PosInf] intro!: fl_nonneg)

lemma mul_nonneg_left: "0 < b \<Longrightarrow> nonneg n \<Longrightarrow> nonneg (js_mul (Num b) n)"
  by (auto simp: nonneg_cases [of n] inf_of_sign_def nonneg_def [of PosInf] intro!: fl_nonneg)

lemma one_plus_nonneg: "nonneg n \<Longrightarrow> nonneg (js_add (Num 1) n)"
  by (auto simp: nonneg_cases [of n] nonneg_def [of PosInf] intro!: fl_nonneg)

lemma reciprocal_nonneg: "nonneg n \<Longrightarrow> nonneg (js_div (Num 1) n)"
  by (auto simp: nonneg_cases [of n] inf_of_sign_def nonneg_def [of PosInf] nonneg_def [of "Num 0"]
      intro!: fl_nonneg)

lemma multiplier_pos: "\<exists>m. multiplier e = Num m \<and> 0 < m"
proof -
  have "multiplier e = Num 3 \<or> multiplier e = Num 2 \<or> multiplier e = Num (3 / 2) \<or>
        multiplier e = Num 1"
    by (simp add: multiplier_def)
  then show ?thesis by force
qed

lemma error_percent_nonneg:
  assumes "0 \<le> a"
  shows "nonneg (error_percent (Some (Num p)) (Num a))"
proof (cases "a = 0")
  case True
  then show ?thesis
    by (simp add: error_percent_def js_eq_def cell_eq_def nonneg_def Let_def)
next
  case False
  with assms have pos: "0 < a" by simp
  have "nonneg (js_mul (js_div (js_abs (js_sub (Num p) (Num a))) (Num a)) (Num 100))"
    by (intro mul_nonneg div_nonneg abs_sub_nonneg pos) simp
  with False show ?thesis
    by (simp add: error_percent_def js_eq_def to_number_def Let_def)
qed

lemma final_score_total_loss:
  "js_gt errorPercent (Num 25) \<Longrightarrow> final_score bid errorPercent = Num 0"
  by (simp add: final_score_def Let_def)

lemma final_score_nonneg:
  assumes "nonneg e" and "0 < b"
  shows "nonneg (final_score (Some (Num b)) e)"
proof (cases "js_gt e (Num 25)")
  case True
  then show ?thesis by (simp add: final_score_total_loss nonneg_def)
next
  case False
  obtain m where m: "multiplier e = Num m" "0 < m"
    using multiplier_pos by blast
  have "nonneg (js_mul (js_mul (Num b) (js_div (Num 1) (js_add (Num 1) e))) (Num m))"
    by (intro mul_nonneg mul_nonneg_left reciprocal_nonneg one_plus_nonneg assms m(2))
  with False m(1) show ?thesis
    by (simp add: final_score_def to_number_def Let_def)
qed

lemma scoring_nonneg:
  assumes "0 \<le> a" and "0 < b"
  shows "js_ge (snd (scoring (Some (Num p)) (Num a) (Some (Num b)))) (Num 0)"
  using final_score_nonneg [OF error_percent_nonneg [OF assms(1)] assms(2), of p]
  by (simp add: scoring_def js_ge_def nonneg_def Let_def)

section \<open>The claims\<close>

subsection \<open>C1: a second reveal of a round\<close>

text \<open>
  C1, as stated, asks that reveal on a round that is already revealed fails and leaves
  the balances as the first reveal left them. The handler has no such guard: on
  \<open>revealed_once\<close>, whose only round is revealed and whose first team holds 2100, a second
  reveal with the same actual value answers 200 and pays the team again.
\<close>

theorem reveal_twice_counterexample:
  "map r_status (rounds revealed_once) = [Revealed] \<and>
   fst (snd (reveal cfg0 admin 1 (Num 100) revealed_once)) = (200, Success) \<and>
   map t_balance (teams revealed_once) = [Some (Num 2100), Some (Num 2000)] \<and>
   map t_balance (teams (fst (reveal cfg0 admin 1 (Num 100) revealed_once)))
     = [Some (Num 2200), Some (Num 2000)]"
  by (simp add: revealed_once_eq reveal_def settle_def admin_ok scoring_exact
      sql_bind_def sql_add_def sql_sub_def js_sub_def fl_eval Let_def)

text \<open>
  C1, amended: reveal has no guard on the status of the round and settles again. On
  every database reached by requests, whatever the statuses of its rounds, an
  authenticated reveal answers 200 with success and broadcasts ROUND_REVEALED; it sets
  the actual value of the round to the value of this call and its status to revealed;
  it stores, for every submission of the round, the error in percent and the score
  computed from this actual value; and it replaces the balance of every team that has a
  submission for the round by the balance less the bid plus that score, in the
  arithmetic of doubles. Changing the statuses of the rounds beforehand changes neither
  the teams, nor the submissions, nor the response, nor the event.
\<close>

theorem reveal_settles_whatever_the_status:
  assumes "adminAuth cfg password" and "s = run cfg reqs initial_db"
  shows "reveal cfg password roundId a s
           = (s\<lparr>rounds := map (revealed_round roundId a) (rounds s),
                submissions := map (settled_submission roundId a) (submissions s),
                teams := map (settled_team roundId a s) (teams s)\<rparr>,
              (200, Success), [ROUND_REVEALED roundId a]) \<and>
         teams (fst (reveal cfg password roundId a (with_status f s)))
           = teams (fst (reveal cfg password roundId a s)) \<and>
         submissions (fst (reveal cfg password roundId a (with_status f s)))
           = submissions (fst (reveal cfg password roundId a s)) \<and>
         snd (reveal cfg password roundId a (with_status f s))
           = snd (reveal cfg password roundId a s)"
proof -
  have "db_ok cfg s"
    unfolding assms(2) by (rule run_db_ok [OF db_ok_initial])
  then have "reveal cfg password roundId a s
           = (s\<lparr>rounds := map (revealed_round roundId a) (rounds s),
                submissions := map (settled_submission roundId a) (submissions s),
                teams := map (settled_team roundId a s) (teams s)\<rparr>,
              (200, Success), [ROUND_REVEALED roundId a])"
    using assms(1) by (rule reveal_closed_form)
  moreover have "teams (fst (reveal cfg password roundId a (with_status f s)))
           = teams (fst (reveal cfg password roundId a s))"
    "submissions (fst (reveal cfg password roundId a (with_status f s)))
           = submissions (fst (reveal cfg password roundId a s))"
    "snd (reveal cfg password roundId a (with_status f s))
           = snd (reveal cfg password roundId a s)"
    by (simp_all add: reveal_def with_status_def unauthorized_def Let_def
        fold_settle_rounds_update)
  ultimately show ?thesis by simp
qed

theorem reveal_settles_whatever_the_status_witness:
  "adminAuth cfg0 admin \<and>
   map r_status (rounds revealed_once) = [Revealed] \<and>
   map t_balance (teams revealed_once) = [Some (Num 2100), Some (Num 2000)] \<and>
   reveal cfg0 admin 1 (Num 100) revealed_once
     = (revealed_once\<lparr>teams :=
           [\<lparr>t_id = 1, t_name = ''ada'', t_balance = Some (Num 2200)\<rparr>,
            \<lparr>t_id = 2, t_name = ''bob'', t_balance = Some (Num 2000)\<rparr>]\<rparr>,
        (200, Success), [ROUND_REVEALED 1 (Num 100)])"
proof -
  have r: "revealed_once = run cfg0 [Join ''ada'', Join ''bob'', StartRound admin ''rainfall'',
              Submit 1 (Some 1) (Some (Num 100)) (Some (Num 50)), Reveal admin 1 (Num 100)] initial_db"
    by (simp add: revealed_once_def played_def run_def)
  have t: "map (settled_team 1 (Num 100) revealed_once) (teams revealed_once)
        = [\<lparr>t_id = 1, t_name = ''ada'', t_balance = Some (Num 2200)\<rparr>,
           \<lparr>t_id = 2, t_name = ''bob'', t_balance = Some (Num 2000)\<rparr>]"
    by (simp add: revealed_once_eq settled_team_def round_submissions_def settled_balance_def
        scoring_exact sql_bind_def sql_add_def sql_sub_def js_sub_def fl_eval)
  have u: "map (settled_submission 1 (Num 100)) (submissions revealed_once)
        = submissions revealed_once"
    by (simp add: revealed_once_eq settled_submission_def scoring_exact sql_bind_def)
  have v: "map (revealed_round 1 (Num 100)) (rounds revealed_once) = rounds revealed_once"
    by (simp add: revealed_once_eq revealed_round_def sql_bind_def)
  from reveal_settles_whatever_the_status [OF admin_ok r, of 1 "Num 100"]
  have "reveal cfg0 admin 1 (Num 100) revealed_once
           = (revealed_once\<lparr>rounds := map (revealed_round 1 (Num 100)) (rounds revealed_once),
                submissions := map (settled_submission 1 (Num 100)) (submissions revealed_once),
                teams := map (settled_team 1 (Num 100) revealed_once) (teams revealed_once)\<rparr>,
              (200, Success), [ROUND_REVEALED 1 (Num 100)])"
    by blast
  then have "reveal cfg0 admin 1 (Num 100) revealed_once
     = (revealed_once\<lparr>teams :=
           [\<lparr>t_id = 1, t_name = ''ada'', t_balance = Some (Num 2200)\<rparr>,
            \<lparr>t_id = 2, t_name = ''bob'', t_balance = Some (Num 2000)\<rparr>]\<rparr>,
        (200, Success), [ROUND_REVEALED 1 (Num 100)])"
    unfolding t u v by simp
  moreover have "map r_status (rounds revealed_once) = [Revealed]"
    "map t_balance (teams revealed_once) = [Some (Num 2100), Some (Num 2000)]"
    by (simp_all add: revealed_once_eq)
  ultimately show ?thesis
    using admin_ok by simp
qed

subsection \<open>C2: the stored error in percent and score\<close>

text \<open>
  C2: the stored \<^verbatim>\<open>error_percent\<close> and \<^verbatim>\<open>score\<close> are those of the specification's rule, whose
  error is relative to the absolute value of the actual value. The handler divides by
  the actual value itself. On \<open>cold\<close> (prediction -4137, bid 1), a reveal with the
  actual value -4096 stores the error -1025/1024 and the score -3072, where the rule
  gives 1025/1024 and 3072/2049. Every operation of this computation is exact in
  doubles.
\<close>

theorem reveal_negative_actual_value:
  "map s_error_percent (submissions (fst (reveal cfg0 admin 1 (Num (- 4096)) cold)))
     = [Some (Num (- (1025 / 1024)))] \<and>
   spec_error_percent (- 4137) (- 4096) = 1025 / 1024 \<and>
   map s_score (submissions (fst (reveal cfg0 admin 1 (Num (- 4096)) cold)))
     = [Some (Num (- 3072))] \<and>
   spec_score (- 4137) (- 4096) 1 = 3072 / 2049"
  by (simp add: cold_eq reveal_def settle_def admin_ok scoring_cold sql_bind_def Let_def
      spec_error_percent_def spec_score_def spec_multiplier_def)

subsection \<open>C3: the score is never negative\<close>

text \<open>
  C3: for finite values and a positive bid the final score is at least 0. With a
  negative actual value the computed error in percent is negative, and below -1 the base
  score is negative: the prediction -4137 of the actual value -4096 with the bid 1 scores
  -3072. For an actual value that is not negative the score is not negative
  (\<open>scoring_nonneg\<close>), and an error above 25 always scores 0 (\<open>final_score_total_loss\<close>).
\<close>

theorem scoring_negative_score:
  "scoring (Some (Num (- 4137))) (Num (- 4096)) (Some (Num 1))
     = (Num (- (1025 / 1024)), Num (- 3072)) \<and>
   \<not> js_ge (snd (scoring (Some (Num (- 4137))) (Num (- 4096)) (Some (Num 1)))) (Num 0)"
  by (simp add: scoring_cold js_ge_def)

subsection \<open>C4: one submission for a team and a round\<close>

text \<open>
  C4, as stated, asks that a submit for a team and a round that already have a
  submission fails with the conflict error. The handler checks the balance first: in
  \<open>played\<close> the first team has a submission for round 1, and another submit of that
  team for that round with a bid above its balance is answered with the error of the
  balance check.
\<close>

theorem duplicate_submit_counterexample:
  "already_submitted played 1 1 \<and>
   fst (snd (submit cfg0 1 (Some 1) (Some (Num 7)) (Some (Num 5000)) played))
     = (400, Error ''Insufficient balance'')"
  by (simp add: played_eq submit_cases balance_covers_def already_submitted_def round_keys_def
      to_number_def)

text \<open>
  C4, amended: after every sequence of requests no team has two submissions for one
  round; and a submit for a team and a round that already have a submission leaves the
  database as it is, broadcasts nothing and answers 400, with the error
  "Already submitted for this round" when the team's balance covers the bid and with
  "Insufficient balance" when it does not.
\<close>

theorem one_submission_per_team_and_round:
  "distinct (round_keys (run cfg reqs initial_db)) \<and>
   (already_submitted s t r \<longrightarrow>
      fst (submit cfg t (Some r) p b s) = s \<and>
      snd (submit cfg t (Some r) p b s) =
        ((400, Error (if balance_covers s t b then ''Already submitted for this round''
                      else ''Insufficient balance'')), []))"
proof -
  have "db_ok cfg (run cfg reqs initial_db)"
    by (rule run_db_ok [OF db_ok_initial])
  then have "distinct (round_keys (run cfg reqs initial_db))"
    by (simp add: db_ok_def)
  then show ?thesis
    by (simp add: submit_cases duplicate_def)
qed

theorem one_submission_per_team_and_round_witness:
  "round_keys played = [(1, 1)] \<and>
   already_submitted played 1 1 \<and>
   submit cfg0 1 (Some 1) (Some (Num 7)) (Some (Num 50)) played
     = (played, (400, Error ''Already submitted for this round''), []) \<and>
   submit cfg0 1 (Some 1) (Some (Num 7)) (Some (Num 5000)) played
     = (played, (400, Error ''Insufficient balance''), [])"
proof -
  have k: "round_keys played = [(1, 1)]"
    by (simp add: played_eq round_keys_def)
  have a: "already_submitted played 1 1"
    by (simp add: k already_submitted_def)
  have c: "balance_covers played 1 (Some (Num 50))" "\<not> balance_covers played 1 (Some (Num 5000))"
    by (simp_all add: played_eq balance_covers_def to_number_def)
  have r: "run cfg0 [Join ''ada'', Join ''bob'', StartRound admin ''rainfall'',
                      Submit 1 (Some 1) (Some (Num 100)) (Some (Num 50))] initial_db = played"
    by (simp add: played_def)
  show ?thesis
    using one_submission_per_team_and_round
             [of cfg0 "[Join ''ada'', Join ''bob'', StartRound admin ''rainfall'',
                        Submit 1 (Some 1) (Some (Num 100)) (Some (Num 50))]" played 1 1 "Some (Num 7)" "Some (Num 50)"]
          one_submission_per_team_and_round
             [of cfg0 "[]" played 1 1 "Some (Num 7)" "Some (Num 5000)"]
          a c k
    by (simp add: r prod_eq_iff)
qed

subsection \<open>C5: submissions to a round that is not open\<close>

text \<open>
  C5, as stated, asks that a submit to a round that is not open is rejected. The
  handler never reads the round: in \<open>revealed_once\<close> round 1 is revealed, and the
  second team's submit to it is accepted and recorded.
\<close>

theorem submit_revealed_round_counterexample:
  "map r_status (rounds revealed_once) = [Revealed] \<and>
   snd (submit cfg0 2 (Some 1) (Some (Num 10)) (Some (Num 5)) revealed_once)
     = ((200, Success), [SUBMISSION_RECEIVED 2]) \<and>
   round_keys (fst (submit cfg0 2 (Some 1) (Some (Num 10)) (Some (Num 5)) revealed_once))
     = [(1, 1), (2, 1)]"
  by (simp add: revealed_once_eq submit_cases balance_covers_def duplicate_def
      already_submitted_def round_keys_def fk_allows_def new_submission_def to_number_def
      bind_value_def sql_bind_def cfg0_def)

text \<open>
  C5, amended: submit does not look at the status of the round. A submit call is
  accepted exactly when the team exists with a balance that is not less than the bid,
  the team has no submission for that round yet and, where foreign keys are enforced,
  the \<^verbatim>\<open>roundId\<close> is \<^verbatim>\<open>null\<close> or the id of an existing round (\<open>accepts\<close>). A call
  that is accepted appends one submission, of that team, for that \<^verbatim>\<open>roundId\<close>, with
  the values sent (NULL for \<^verbatim>\<open>null\<close> and for NaN), the score 0 and no error in
  percent, answers 200 with success and
  broadcasts SUBMISSION_RECEIVED; a call that is not accepted leaves the database as it
  is, broadcasts nothing and answers 400 or 500. Changing the statuses of the rounds
  beforehand changes neither whether a call is accepted, nor the response, nor the
  events, nor the submission recorded: a submit to a revealed round is accepted and
  recorded as a submit to an open round is.
\<close>

theorem submit_ignores_round_status:
  "(accepts cfg s t roundId b \<longrightarrow>
      submit cfg t roundId p b s
        = (s\<lparr>submissions := submissions s @ [new_submission s t roundId p b],
             seq_submissions := s_id (new_submission s t roundId p b)\<rparr>,
           (200, Success), [SUBMISSION_RECEIVED t])) \<and>
   (\<not> accepts cfg s t roundId b \<longrightarrow>
      fst (submit cfg t roundId p b s) = s \<and>
      snd (snd (submit cfg t roundId p b s)) = [] \<and>
      (fst (fst (snd (submit cfg t roundId p b s))) = 400 \<or>
       fst (fst (snd (submit cfg t roundId p b s))) = 500)) \<and>
   accepts cfg (with_status f s) t roundId b = accepts cfg s t roundId b \<and>
   submit cfg t roundId p b (with_status f s)
     = (with_status f (fst (submit cfg t roundId p b s)), snd (submit cfg t roundId p b s))"
  by (auto simp: submit_cases accepts_def) (simp_all add: with_status_def)

theorem submit_ignores_round_status_witness:
  "accepts cfg0 revealed_once 2 (Some 1) (Some (Num 5)) \<and>
   map r_status (rounds revealed_once) = [Revealed] \<and>
   submit cfg0 2 (Some 1) (Some (Num 10)) (Some (Num 5)) revealed_once
     = (revealed_once\<lparr>submissions := submissions revealed_once @
           [\<lparr>s_id = 2, s_team_id = 2, s_round_id = Some 1,
             s_predicted_value = Some (Num 10), s_bid_amount = Some (Num 5),
             s_score = Some (Num 0), s_error_percent = None\<rparr>],
          seq_submissions := 2\<rparr>,
        (200, Success), [SUBMISSION_RECEIVED 2]) \<and>
   \<not> accepts cfg0 revealed_once 1 (Some 1) (Some (Num 5)) \<and>
   fst (submit cfg0 1 (Some 1) (Some (Num 10)) (Some (Num 5)) revealed_once) = revealed_once"
proof -
  have h: "accepts cfg0 revealed_once 2 (Some 1) (Some (Num 5))"
    "\<not> accepts cfg0 revealed_once 1 (Some 1) (Some (Num 5))"
    by (simp_all add: revealed_once_eq accepts_def balance_covers_def duplicate_def
        already_submitted_def round_keys_def fk_allows_def to_number_def cfg0_def)
  have n: "new_submission revealed_once 2 (Some 1) (Some (Num 10)) (Some (Num 5))
      = \<lparr>s_id = 2, s_team_id = 2, s_round_id = Some 1,
         s_predicted_value = Some (Num 10), s_bid_amount = Some (Num 5),
         s_score = Some (Num 0), s_error_percent = None\<rparr>"
    by (simp add: revealed_once_eq new_submission_def next_rowid_def bind_value_def sql_bind_def)
  have m: "map r_status (rounds revealed_once) = [Revealed]"
    by (simp add: revealed_once_eq)
  show ?thesis
    using submit_ignores_round_status
            [of cfg0 revealed_once 2 "Some 1" "Some (Num 5)" "Some (Num 10)" "\<lambda>r. Open"]
          submit_ignores_round_status
            [of cfg0 revealed_once 1 "Some 1" "Some (Num 5)" "Some (Num 10)" "\<lambda>r. Open"] h m
    by (simp add: n)
qed

subsection \<open>C6: validation of the predicted value and of the bid\<close>

text \<open>
  C6, as stated, asks that submit rejects a predicted value that is not finite and a
  bid that is not finite or not positive. The handler validates neither: in \<open>played\<close>
  the second team's submit with the predicted value Infinity and the bid -5 is accepted
  and both are stored.
\<close>

theorem submit_unvalidated_counterexample:
  "\<not> is_finite PosInf \<and> js_le (Num (- 5)) (Num 0) \<and>
   snd (submit cfg0 2 (Some 1) (Some PosInf) (Some (Num (- 5))) played)
     = ((200, Success), [SUBMISSION_RECEIVED 2]) \<and>
   map s_predicted_value
     (submissions (fst (submit cfg0 2 (Some 1) (Some PosInf) (Some (Num (- 5))) played)))
     = [Some (Num 100), Some PosInf] \<and>
   map s_bid_amount
     (submissions (fst (submit cfg0 2 (Some 1) (Some PosInf) (Some (Num (- 5))) played)))
     = [Some (Num 50), Some (Num (- 5))]"
  by (simp add: played_eq submit_cases balance_covers_def duplicate_def already_submitted_def
      round_keys_def fk_allows_def new_submission_def to_number_def cfg0_def is_finite_def
      bind_value_def sql_bind_def)

text \<open>
  C6, amended: submit does not validate the predicted value, and its only test of the
  bid is the balance check, which passes exactly when the team exists and its balance
  is not less than the bid (a balance that is NULL and a bid that is \<^verbatim>\<open>null\<close> count
  as 0). When that check does not pass the call fails with 400 "Insufficient balance".
  Every call that is not answered with success leaves the database as it is. The
  predicted value has no influence on the response. A call that passes the balance
  check, for a team with no submission for the round yet and a round the foreign key
  allows, is accepted whatever the predicted value and the bid are, and stores both as
  they were sent (NULL for \<^verbatim>\<open>null\<close> and for NaN). A bid that is zero or negative passes
  the balance check of every team whose balance is not negative, and a bid of +Infinity
  fails the balance check of every team whose balance is finite.
\<close>

theorem submit_validates_balance_only:
  "balance_covers s t b
     = (\<exists>team. find (\<lambda>x. t_id x = t) (teams s) = Some team \<and>
               \<not> js_lt (to_number (t_balance team)) (to_number b)) \<and>
   (\<not> balance_covers s t b \<longrightarrow>
      submit cfg t roundId p b s = (s, (400, Error ''Insufficient balance''), [])) \<and>
   (fst (snd (submit cfg t roundId p b s)) \<noteq> (200, Success) \<longrightarrow>
      fst (submit cfg t roundId p b s) = s) \<and>
   fst (snd (submit cfg t roundId p' b s)) = fst (snd (submit cfg t roundId p b s)) \<and>
   (balance_covers s t b \<and> \<not> duplicate s t roundId \<and> fk_allows cfg s roundId \<longrightarrow>
      snd (submit cfg t roundId p b s) = ((200, Success), [SUBMISSION_RECEIVED t]) \<and>
      submissions (fst (submit cfg t roundId p b s))
        = submissions s @ [new_submission s t roundId p b] \<and>
      s_predicted_value (new_submission s t roundId p b) = bind_value p \<and>
      s_bid_amount (new_submission s t roundId p b) = bind_value b) \<and>
   (\<forall>team. find (\<lambda>x. t_id x = t) (teams s) = Some team \<and>
           nonneg (to_number (t_balance team)) \<and> js_le (to_number b) (Num 0) \<longrightarrow>
           balance_covers s t b) \<and>
   (\<forall>team. find (\<lambda>x. t_id x = t) (teams s) = Some team \<and>
           is_finite (to_number (t_balance team)) \<longrightarrow>
           \<not> balance_covers s t (Some PosInf))"
proof -
  have 1: "balance_covers s t b
     = (\<exists>team. find (\<lambda>x. t_id x = t) (teams s) = Some team \<and>
               \<not> js_lt (to_number (t_balance team)) (to_number b))"
    by (simp add: balance_covers_def split: option.splits)
  have 2: "\<not> js_lt x y" if "nonneg x" and "js_le y (Num 0)" for x y
    using that by (cases x; cases y) (auto simp: nonneg_def)
  have 3: "js_lt x PosInf" if "is_finite x" for x
    using that by (cases x) (simp_all add: is_finite_def)
  have 4: "\<forall>team. find (\<lambda>x. t_id x = t) (teams s) = Some team \<and>
           nonneg (to_number (t_balance team)) \<and> js_le (to_number b) (Num 0) \<longrightarrow>
           balance_covers s t b"
    using 2 by (auto simp: balance_covers_def)
  have 5: "\<forall>team. find (\<lambda>x. t_id x = t) (teams s) = Some team \<and>
           is_finite (to_number (t_balance team)) \<longrightarrow>
           \<not> balance_covers s t (Some PosInf)"
    using 3 by (auto simp: balance_covers_def to_number_def)
  have 6: "s_predicted_value (new_submission s t roundId p b) = bind_value p"
    "s_bid_amount (new_submission s t roundId p b) = bind_value b"
    by (simp_all add: new_submission_def)
  show ?thesis
    using 1 4 5 6 by (simp add: submit_cases)
qed

theorem submit_validates_balance_only_witness:
  "\<not> balance_covers owing 1 (Some (Num (- 5))) \<and>
   submit cfg0 1 (Some 2) (Some (Num 3)) (Some (Num (- 5))) owing
     = (owing, (400, Error ''Insufficient balance''), []) \<and>
   balance_covers played 2 (Some NegInf) \<and> \<not> duplicate played 2 (Some 1) \<and>
   fk_allows cfg0 played (Some 1) \<and>
   snd (submit cfg0 2 (Some 1) None (Some NegInf) played)
     = ((200, Success), [SUBMISSION_RECEIVED 2]) \<and>
   map s_predicted_value (submissions (fst (submit cfg0 2 (Some 1) None (Some NegInf) played)))
     = [Some (Num 100), None] \<and>
   map s_bid_amount (submissions (fst (submit cfg0 2 (Some 1) None (Some NegInf) played)))
     = [Some (Num 50), Some NegInf] \<and>
   \<not> balance_covers played 2 (Some PosInf)"
proof -
  have h: "\<not> balance_covers owing 1 (Some (Num (- 5)))"
    by (simp add: owing_eq balance_covers_def to_number_def)
  have k: "balance_covers played 2 (Some NegInf)" "\<not> duplicate played 2 (Some 1)"
    "fk_allows cfg0 played (Some 1)" "\<not> balance_covers played 2 (Some PosInf)"
    by (simp_all add: played_eq balance_covers_def duplicate_def already_submitted_def
        round_keys_def fk_allows_def to_number_def)
  have m: "map s_bid_amount (submissions played) = [Some (Num 50)]"
    "map s_predicted_value (submissions played) = [Some (Num 100)]"
    by (simp_all add: played_eq)
  have n: "bind_value (Some NegInf) = Some NegInf" "bind_value None = None"
    by (simp_all add: bind_value_def sql_bind_def)
  show ?thesis
    using submit_validates_balance_only
            [of owing 1 "Some (Num (- 5))" cfg0 "Some 2" "Some (Num 3)" "Some (Num 3)"]
          submit_validates_balance_only
            [of played 2 "Some NegInf" cfg0 "Some 1" None None] h k
    by (simp add: m n)
qed

subsection \<open>C7: starting a round\<close>

text \<open>
  C7: an authenticated startRound leaves the teams and the submissions as they are,
  sets the status of every existing round to revealed and changes nothing else of it,
  and appends one round with the given theme, the status open and no actual value,
  whose id is above every other, so that it is the current round.
\<close>

theorem startRound_forces_revealed_and_opens:
  assumes "adminAuth cfg password"
    and "startRound cfg password theme s = (s', resp, evs)"
  shows "teams s' = teams s \<and> submissions s' = submissions s \<and> settings s' = settings s \<and>
    (\<exists>n. rounds s' = map (\<lambda>r. r\<lparr>r_status := Revealed\<rparr>) (rounds s) @ [n] \<and>
         r_theme n = theme \<and> r_status n = Open \<and> r_actual_value n = None \<and>
         (\<forall>r\<in>set (rounds s). r_id r < r_id n) \<and>
         currentRound s' = Some n \<and>
         resp = (200, RoundJson (r_id n) theme) \<and>
         evs = [ROUND_STARTED (r_id n) theme Open])"
proof -
  define rs where "rs = map (\<lambda>r. r\<lparr>r_status := Revealed\<rparr>) (rounds s)"
  define i where "i = next_rowid (seq_rounds s) (map r_id rs)"
  define n where "n = \<lparr> r_id = i, r_theme = theme, r_actual_value = None, r_status = Open \<rparr>"
  have s': "s' = s\<lparr>rounds := rs @ [n], seq_rounds := i\<rparr>"
    and resp: "resp = (200, RoundJson i theme)"
    and evs: "evs = [ROUND_STARTED i theme Open]"
    using assms by (simp_all add: startRound_def Let_def force_revealed_map rs_def i_def n_def)
  have ids: "map r_id rs = map r_id (rounds s)"
    by (simp add: rs_def comp_def)
  have fresh: "\<forall>r\<in>set (rounds s). r_id r < r_id n"
    using next_rowid_fresh [of _ "map r_id (rounds s)" "seq_rounds s"]
    by (simp add: n_def i_def ids)
  then have fresh': "\<forall>r\<in>set rs. r_id r < r_id n"
    by (simp add: rs_def)
  have cur: "currentRound s' = Some n"
    by (rule currentRound_append [OF fresh']) (simp add: s')
  show ?thesis
    using fresh cur by (simp add: s' resp evs rs_def n_def)
qed

theorem startRound_forces_revealed_and_opens_witness:
  "adminAuth cfg0 admin \<and>
   rounds (fst (startRound cfg0 admin ''wind'' played))
     = [\<lparr>r_id = 1, r_theme = ''rainfall'', r_actual_value = None, r_status = Revealed\<rparr>,
        \<lparr>r_id = 2, r_theme = ''wind'', r_actual_value = None, r_status = Open\<rparr>] \<and>
   currentRound (fst (startRound cfg0 admin ''wind'' played))
     = Some \<lparr>r_id = 2, r_theme = ''wind'', r_actual_value = None, r_status = Open\<rparr> \<and>
   submissions (fst (startRound cfg0 admin ''wind'' played)) = submissions played \<and>
   teams (fst (startRound cfg0 admin ''wind'' played)) = teams played"
proof -
  define out where "out = startRound cfg0 admin ''wind'' played"
  have e: "startRound cfg0 admin ''wind'' played = (fst out, fst (snd out), snd (snd out))"
    by (simp add: out_def)
  have r: "rounds (fst out)
     = [\<lparr>r_id = 1, r_theme = ''rainfall'', r_actual_value = None, r_status = Revealed\<rparr>,
        \<lparr>r_id = 2, r_theme = ''wind'', r_actual_value = None, r_status = Open\<rparr>]"
    by (simp add: out_def startRound_def admin_ok played_eq next_rowid_def Let_def)
  from startRound_forces_revealed_and_opens [OF admin_ok e]
  obtain n where n: "teams (fst out) = teams played" "submissions (fst out) = submissions played"
    "rounds (fst out) = map (\<lambda>r. r\<lparr>r_status := Revealed\<rparr>) (rounds played) @ [n]"
    "currentRound (fst out) = Some n"
    by blast
  from n(3) r have "n = \<lparr>r_id = 2, r_theme = ''wind'', r_actual_value = None, r_status = Open\<rparr>"
    by (simp add: played_eq)
  with n r show ?thesis
    using admin_ok by (simp add: out_def)
qed

subsection \<open>C8: settlement and the sum of the balances\<close>

text \<open>
  C8, as stated, asks that a reveal changes the sum of all balances by the sum, over the
  round's submissions, of the score less the bid. The balances and the scores are
  doubles, and the balance of a team is computed as \<^verbatim>\<open>balance - bid + score\<close> with a
  rounding after each operation. In \<open>near\<close> the only team holds 2000 and has bid 50 on
  the prediction 102; a reveal with the actual value 100 gives the score
  49.99999999999999 (the double next below 50), and the balance 2000 - 50 + score is
  rounded to 2000: the sum of the balances does not change, and the score less the bid
  is not zero.
\<close>

theorem settlement_rounding_counterexample:
  "map s_team_id (round_submissions 1 near) = [1] \<and>
   map t_id (teams near) = [1] \<and>
   map s_score (submissions (fst (reveal cfg0 admin 1 (Num 100) near)))
     = [Some (Num (50 - 1 / 2 ^ 47))] \<and>
   map t_balance (teams (fst (reveal cfg0 admin 1 (Num 100) near))) = [Some (Num 2000)] \<and>
   total_balance (fst (reveal cfg0 admin 1 (Num 100) near)) - total_balance near = 0 \<and>
   sum_list (map (net_result (Num 100)) (round_submissions 1 near)) = - (1 / 2 ^ 47)"
  by (simp add: near_eq reveal_def settle_def admin_ok scoring_near
      round_submissions_def total_balance_def net_result_def num_real_def cell_real_def
      sql_bind_def sql_add_def sql_sub_def js_sub_def fl_eval Let_def)

text \<open>
  C8, amended: on every database reached by requests, an authenticated reveal of a
  round replaces the balance of each team that has a submission for the round by the
  double that \<^verbatim>\<open>balance - bid_amount + score\<close> evaluates to, the difference rounded and
  then the sum rounded (NULL when it is NaN), and leaves every other team as it is. And
  after any request that is not a reveal every team either is a team of the database
  before, unchanged, or is new with the balance 2000.
\<close>

theorem settlement_updates_each_team:
  assumes "adminAuth cfg password" and "s = run cfg reqs initial_db"
  shows "teams (fst (reveal cfg password roundId actualValue s))
           = map (settled_team roundId actualValue s) (teams s) \<and>
         (\<forall>req. \<not> is_reveal req \<longrightarrow>
            (\<forall>t\<in>set (teams (fst (handle cfg req s))).
               t \<in> set (teams s) \<or>
               (t_balance t = Some (Num 2000) \<and> t_id t \<notin> set (map t_id (teams s)))))"
proof -
  have "db_ok cfg s"
    unfolding assms(2) by (rule run_db_ok [OF db_ok_initial])
  then have "teams (fst (reveal cfg password roundId actualValue s))
           = map (settled_team roundId actualValue s) (teams s)"
    using assms(1) by (simp add: reveal_closed_form)
  then show ?thesis
    using other_requests_keep_balances by blast
qed

theorem settlement_updates_each_team_witness:
  "adminAuth cfg0 admin \<and> \<not> is_reveal (Join ''cyd'') \<and>
   map t_balance (teams played) = [Some (Num 2000), Some (Num 2000)] \<and>
   map (settled_team 1 (Num 100) played) (teams played)
     = [\<lparr>t_id = 1, t_name = ''ada'', t_balance = Some (Num 2100)\<rparr>,
        \<lparr>t_id = 2, t_name = ''bob'', t_balance = Some (Num 2000)\<rparr>] \<and>
   teams (fst (reveal cfg0 admin 1 (Num 100) played))
     = [\<lparr>t_id = 1, t_name = ''ada'', t_balance = Some (Num 2100)\<rparr>,
        \<lparr>t_id = 2, t_name = ''bob'', t_balance = Some (Num 2000)\<rparr>] \<and>
   teams (fst (handle cfg0 (Join ''cyd'') played))
     = teams played @ [\<lparr>t_id = 3, t_name = ''cyd'', t_balance = Some (Num 2000)\<rparr>]"
proof -
  have r: "played = run cfg0 [Join ''ada'', Join ''bob'', StartRound admin ''rainfall'',
                      Submit 1 (Some 1) (Some (Num 100)) (Some (Num 50))] initial_db"
    by (simp add: played_def)
  have t: "map (settled_team 1 (Num 100) played) (teams played)
     = [\<lparr>t_id = 1, t_name = ''ada'', t_balance = Some (Num 2100)\<rparr>,
        \<lparr>t_id = 2, t_name = ''bob'', t_balance = Some (Num 2000)\<rparr>]"
    by (simp add: played_eq settled_team_def round_submissions_def settled_balance_def
        scoring_exact sql_bind_def sql_add_def sql_sub_def js_sub_def fl_eval)
  have j: "teams (fst (handle cfg0 (Join ''cyd'') played))
     = teams played @ [\<lparr>t_id = 3, t_name = ''cyd'', t_balance = Some (Num 2000)\<rparr>]"
    by (simp add: played_eq join_def next_rowid_def Let_def)
  have b: "map t_balance (teams played) = [Some (Num 2000), Some (Num 2000)]"
    by (simp add: played_eq)
  have n: "\<not> is_reveal (Join ''cyd'')"
    by (simp add: is_reveal_def)
  from settlement_updates_each_team [OF admin_ok r, of 1 "Num 100"]
  have "teams (fst (reveal cfg0 admin 1 (Num 100) played))
           = map (settled_team 1 (Num 100) played) (teams played)"
    by blast
  with t j b n admin_ok show ?thesis
    by simp
qed

subsection \<open>C9: reset\<close>

text \<open>
  C9: a reset that is answered with success leaves no team, no round and no
  submission, and leaves the settings as they were.
\<close>

theorem reset_clears_all_but_settings:
  assumes "fst (snd (reset cfg password s)) = (200, Success)"
  shows "teams (fst (reset cfg password s)) = [] \<and>
         rounds (fst (reset cfg password s)) = [] \<and>
         submissions (fst (reset cfg password s)) = [] \<and>
         settings (fst (reset cfg password s)) = settings s"
  using assms by (simp add: reset_def unauthorized_def split: if_splits)

theorem reset_clears_all_but_settings_witness:
  "fst (snd (reset cfg0 admin played)) = (200, Success) \<and>
   length (teams played) = 2 \<and>
   teams (fst (reset cfg0 admin played)) = [] \<and>
   rounds (fst (reset cfg0 admin played)) = [] \<and>
   submissions (fst (reset cfg0 admin played)) = [] \<and>
   settings (fst (reset cfg0 admin played)) = settings played"
proof -
  have h: "fst (snd (reset cfg0 admin played)) = (200, Success)"
    by (simp add: reset_def admin_ok)
  have "length (teams played) = 2"
    by (simp add: played_eq)
  with h reset_clears_all_but_settings [OF h] show ?thesis
    by simp
qed

subsection \<open>C10: reveal of a round that does not exist\<close>

text \<open>
  C10: on a server that enforces the schema's foreign keys, in a database reached by a
  sequence of requests, an authenticated reveal of an id that is the id of no round
  answers 200 with success, leaves the whole database as it is and broadcasts the
  ROUND_REVEALED event with that id; and an authenticated reveal never answers anything
  but success.
\<close>

theorem reveal_unknown_round:
  assumes "foreign_keys cfg" and "adminAuth cfg password"
    and "s = run cfg reqs initial_db"
    and "roundId \<notin> set (map r_id (rounds s))"
  shows "reveal cfg password roundId actualValue s
           = (s, (200, Success), [ROUND_REVEALED roundId actualValue]) \<and>
         (\<forall>s'. fst (snd (reveal cfg password roundId actualValue s')) = (200, Success))"
proof -
  have "db_ok cfg s"
    unfolding assms(3) by (rule run_db_ok [OF db_ok_initial])
  with assms(1) have fk: "\<forall>k\<in>set (round_keys s). snd k \<in> set (map r_id (rounds s))"
    by (simp add: db_ok_def)
  have none: "filter (\<lambda>x. s_round_id x = Some roundId) (submissions s) = []"
  proof (rule ccontr)
    assume "filter (\<lambda>x. s_round_id x = Some roundId) (submissions s) \<noteq> []"
    then obtain x where "x \<in> set (submissions s)" "s_round_id x = Some roundId"
      by (auto simp: filter_empty_conv)
    then have "(s_team_id x, roundId) \<in> set (round_keys s)"
      by (auto simp: round_keys_def keys_of_mem)
    with fk have "roundId \<in> set (map r_id (rounds s))"
      by fastforce
    with assms(4) show False by simp
  qed
  have "\<forall>r\<in>set (rounds s). r_id r \<noteq> roundId"
    using assms(4) by auto
  then have same: "map (\<lambda>r. if r_id r = roundId
                         then r\<lparr>r_actual_value := sql_bind actualValue, r_status := Revealed\<rparr>
                         else r) (rounds s) = rounds s"
    by (simp add: map_idI)
  show ?thesis
    using assms(2) by (simp add: reveal_def Let_def none same)
qed

theorem reveal_unknown_round_witness:
  "foreign_keys cfg0 \<and> adminAuth cfg0 admin \<and> 7 \<notin> set (map r_id (rounds played)) \<and>
   reveal cfg0 admin 7 (Num 3) played = (played, (200, Success), [ROUND_REVEALED 7 (Num 3)])"
proof -
  have h: "foreign_keys cfg0" "adminAuth cfg0 admin" "7 \<notin> set (map r_id (rounds played))"
    by (simp_all add: admin_ok played_eq) (simp add: cfg0_def)
  have r: "played = run cfg0 [Join ''ada'', Join ''bob'', StartRound admin ''rainfall'',
                      Submit 1 (Some 1) (Some (Num 100)) (Some (Num 50))] initial_db"
    by (simp add: played_def)
  show ?thesis
    using reveal_unknown_round [OF h(1) h(2) r h(3), of "Num 3"] h by simp
qed

text \<open>
  Where the foreign keys are not enforced the same reveal can settle: in \<open>stray\<close> a
  submission is for round 9, which does not exist, and a reveal of 9 pays its team.
\<close>

lemma stray_submission_is_settled:
  "\<not> foreign_keys cfg_no_fk \<and> rounds stray = [] \<and>
   map t_balance (teams stray) = [Some (Num 2000)] \<and>
   map t_balance (teams (fst (reveal cfg_no_fk admin 9 (Num 100) stray))) = [Some (Num 2100)]"
  by (simp add: stray_def cfg_no_fk_def admin_def run_def join_def submit_def reveal_def
      settle_def adminAuth_def correctPassword_def next_rowid_def initial_db_def sql_eq_def
      bind_value_def
      scoring_exact sql_bind_def sql_add_def sql_sub_def js_sub_def to_number_def fl_eval
      Let_def)

end
